theory Spec2Isabelle
  imports Complex_Main "HOL-Library.Word" "HOL-Library.AList"
begin

section \<open>Audio ingestion service (audio.py)\<close>

text \<open>
  The service stores uploaded audio files in one directory and answers four routes.
  Every handler is modelled as a function from the filesystem state (and the request)
  to the HTTP outcome and the new filesystem state. An \<open>HTTPException\<close> is the left
  summand of the outcome, the response model the right one (HTTP 200).

  File names are Python strings; here they are \<open>string\<close>, the UTF-8 bytes of the name.
  \<open>str.lower\<close> is modelled on the ASCII letters only: no character outside ASCII
  lower-cases to one of the letters of the eight supported extensions, so membership
  in the allow-list is decided the same way. Paths follow \<open>posixpath\<close>. Log lines and
  the static answer of the root route are not modelled.
\<close>

subsection \<open>Python string and path functions\<close>

type_synonym bytes = "8 word list"

definition lower_char :: "char \<Rightarrow> char" where
  "lower_char c =
     (if (65::nat) \<le> of_char c \<and> of_char c \<le> (90::nat)
      then char_of (of_char c + (32::nat)) else c)"

definition lower :: "string \<Rightarrow> string" where
  "lower s = map lower_char s"

text \<open>\<open>s.lstrip('.')\<close>\<close>

definition lstrip_dot :: "string \<Rightarrow> string" where
  "lstrip_dot s = dropWhile (\<lambda>c. c = CHR ''.'') s"

text \<open>\<open>sep.join(xs)\<close>\<close>

fun join_sep :: "string \<Rightarrow> string list \<Rightarrow> string" where
  "join_sep sep [] = []"
| "join_sep sep [x] = x"
| "join_sep sep (x # y # ys) = x @ sep @ join_sep sep (y # ys)"

text \<open>\<open>p.rfind(c)\<close> for a single character: the index of its last occurrence, or -1.\<close>

fun rfind :: "char \<Rightarrow> string \<Rightarrow> int" where
  "rfind c [] = - 1"
| "rfind c (x # xs) =
     (let r = rfind c xs in if 0 \<le> r then r + 1 else if x = c then 0 else - 1)"

text \<open>
  \<open>genericpath._splitext\<close>, with \<open>sep = '/'\<close>, no \<open>altsep\<close> and \<open>extsep = '.'\<close>. The while loop
  skips the leading dots of the last component; it returns the split at the first
  character that is not a dot, and falls through when it finds none.
\<close>

function skip_leading_dots :: "string \<Rightarrow> nat \<Rightarrow> nat \<Rightarrow> (string \<times> string) option" where
  "skip_leading_dots p filenameIndex dotIndex =
     (if filenameIndex < dotIndex then
        (if take 1 (drop filenameIndex p) \<noteq> ''.''
         then Some (take dotIndex p, drop dotIndex p)
         else skip_leading_dots p (filenameIndex + 1) dotIndex)
      else None)"
  by pat_completeness auto
termination
  by (relation "measure (\<lambda>(p, i, d). d - i)") auto

declare skip_leading_dots.simps [simp del]

definition os_path_splitext :: "string \<Rightarrow> string \<times> string" where
  "os_path_splitext p =
     (let sepIndex = rfind CHR ''/'' p;
          dotIndex = rfind CHR ''.'' p
      in if dotIndex > sepIndex then
           (case skip_leading_dots p (nat (sepIndex + 1)) (nat dotIndex) of
              Some r \<Rightarrow> r
            | None \<Rightarrow> (p, take 0 p))
         else (p, take 0 p))"

text \<open>\<open>posixpath.join(a, b)\<close>\<close>

definition os_path_join :: "string \<Rightarrow> string \<Rightarrow> string" where
  "os_path_join a b =
     (if take 1 b = ''/'' then b
      else if a = [] \<or> last a = CHR ''/'' then a @ b
      else a @ ''/'' @ b)"

text \<open>\<open>posixpath.basename(p)\<close>\<close>

definition os_path_basename :: "string \<Rightarrow> string" where
  "os_path_basename p = drop (nat (rfind CHR ''/'' p + 1)) p"

text \<open>
  \<open>round(x, 2)\<close>. The quotients rounded here are a byte count below \<open>2^53\<close> divided by
  \<open>2^20\<close>, which a float holds exactly, and \<open>round\<close> rounds the exact value to the nearest
  hundredth, a tie to the even one. The model keeps the decimal value.
\<close>

definition py_round2 :: "rat \<Rightarrow> rat" where
  "py_round2 x =
     (let y = x * 100; f = \<lfloor>y\<rfloor>; d = y - of_int f
      in of_int (if d < 1 / 2 then f
                 else if d > 1 / 2 then f + 1
                 else if even f then f else f + 1) / 100)"

subsection \<open>Exceptions\<close>

text \<open>
  The exceptions the handlers can meet, by Python class. \<open>OSError\<close> carries the message of
  a failure the directory tree does not decide (permissions, a full disk), and
  \<open>Exception\<close> is the one \<open>parse_audio\<close> raises itself.
\<close>

datatype py_exception =
    FileNotFoundError string
  | NotADirectoryError string
  | IsADirectoryError string
  | FileExistsError string
  | ValueError string
  | OSError string
  | Exception string

text \<open>\<open>repr\<close> of a path, without the escapes of unusual characters.\<close>

definition py_repr :: "string \<Rightarrow> string" where
  "py_repr s = [CHR 0x27] @ s @ [CHR 0x27]"

text \<open>\<open>str(e)\<close>\<close>

fun str_exc :: "py_exception \<Rightarrow> string" where
  "str_exc (FileNotFoundError p) = ''[Errno 2] No such file or directory: '' @ py_repr p"
| "str_exc (NotADirectoryError p) = ''[Errno 20] Not a directory: '' @ py_repr p"
| "str_exc (IsADirectoryError p) = ''[Errno 21] Is a directory: '' @ py_repr p"
| "str_exc (FileExistsError p) = ''[Errno 17] File exists: '' @ py_repr p"
| "str_exc (ValueError m) = m"
| "str_exc (OSError m) = m"
| "str_exc (Exception m) = m"

datatype http_exception = HTTPException (status_code: nat) (detail: string)

subsection \<open>The filesystem\<close>

text \<open>
  A filesystem state is the list of its nodes, each under its absolute path (the list of
  the path's components from the root, which is the empty list and always a
  directory), and the working directory of the process. Relative paths such as
  \<open>UPLOAD_DIR\<close> are resolved from the working directory.
\<close>

datatype node = RegularFile bytes | Directory

type_synonym path = "string list"

record filesystem =
  nodes :: "(path \<times> node) list"
  cwd :: path

definition lookup :: "filesystem \<Rightarrow> path \<Rightarrow> node option" where
  "lookup fs p = map_of (nodes fs) p"

definition node_exists :: "filesystem \<Rightarrow> path \<Rightarrow> bool" where
  "node_exists fs p = (p = [] \<or> lookup fs p \<noteq> None)"

definition is_dir :: "filesystem \<Rightarrow> path \<Rightarrow> bool" where
  "is_dir fs p = (p = [] \<or> lookup fs p = Some Directory)"

definition put_node :: "filesystem \<Rightarrow> path \<Rightarrow> node \<Rightarrow> filesystem" where
  "put_node fs p n = fs\<lparr>nodes := AList.update p n (nodes fs)\<rparr>"

text \<open>The components of a path string: the pieces between the slashes.\<close>

fun split_path :: "string \<Rightarrow> string list" where
  "split_path [] = [[]]"
| "split_path (c # cs) =
     (if c = CHR ''/'' then [] # split_path cs
      else (case split_path cs of
              [] \<Rightarrow> [[c]]
            | x # xs \<Rightarrow> (c # x) # xs))"

definition path_start :: "filesystem \<Rightarrow> string \<Rightarrow> path" where
  "path_start fs s = (if take 1 s = ''/'' then [] else cwd fs)"

text \<open>
  Walking down the components of the path string \<open>s\<close> from the node \<open>cur\<close>: every node
  walked through must be an existing directory.
\<close>

fun walk :: "filesystem \<Rightarrow> string \<Rightarrow> path \<Rightarrow> string list \<Rightarrow> py_exception + path" where
  "walk fs s cur [] = Inr cur"
| "walk fs s cur (c # cs) =
     (if \<not> node_exists fs cur then Inl (FileNotFoundError s)
      else if \<not> is_dir fs cur then Inl (NotADirectoryError s)
      else if c = [] \<or> c = ''.'' then walk fs s cur cs
      else if c = ''..'' then walk fs s (butlast cur) cs
      else walk fs s (cur @ [c]) cs)"

text \<open>The node a path string names (\<open>os.stat\<close>).\<close>

definition resolve :: "filesystem \<Rightarrow> string \<Rightarrow> py_exception + path" where
  "resolve fs s =
     (if CHR 0x00 \<in> set s then Inl (ValueError ''embedded null byte'')
      else if s = [] then Inl (FileNotFoundError s)
      else (case walk fs s (path_start fs s) (split_path s) of
              Inl e \<Rightarrow> Inl e
            | Inr p \<Rightarrow> if node_exists fs p then Inr p else Inl (FileNotFoundError s)))"

definition os_path_exists :: "filesystem \<Rightarrow> string \<Rightarrow> bool" where
  "os_path_exists fs s = (case resolve fs s of Inl e \<Rightarrow> False | Inr p \<Rightarrow> True)"

definition os_path_isfile :: "filesystem \<Rightarrow> string \<Rightarrow> bool" where
  "os_path_isfile fs s =
     (case resolve fs s of
        Inl e \<Rightarrow> False
      | Inr p \<Rightarrow> (case lookup fs p of Some (RegularFile b) \<Rightarrow> True | _ \<Rightarrow> False))"

text \<open>
  \<open>os.path.getsize\<close>: the length of a regular file. The size the system reports for a
  directory is its own matter; the handlers ask for the size of regular files only.
\<close>

definition os_path_getsize :: "filesystem \<Rightarrow> string \<Rightarrow> py_exception + nat" where
  "os_path_getsize fs s =
     (case resolve fs s of
        Inl e \<Rightarrow> Inl e
      | Inr p \<Rightarrow> (case lookup fs p of Some (RegularFile b) \<Rightarrow> Inr (length b) | _ \<Rightarrow> Inr 0))"

text \<open>The names in a directory, in the order of the node list.\<close>

definition children :: "filesystem \<Rightarrow> path \<Rightarrow> string list" where
  "children fs d = map (\<lambda>(q, n). last q) (filter (\<lambda>(q, n). q \<noteq> [] \<and> butlast q = d) (nodes fs))"

definition os_listdir :: "filesystem \<Rightarrow> string \<Rightarrow> py_exception + string list" where
  "os_listdir fs s =
     (case resolve fs s of
        Inl e \<Rightarrow> Inl e
      | Inr p \<Rightarrow> if is_dir fs p then Inr (children fs p) else Inl (NotADirectoryError s))"

text \<open>
  What the environment does to one write beyond what the directory tree decides:
  \<open>open\<close> fails with a message, or \<open>write\<close> fails with a message after some bytes.
\<close>

datatype io_fault = OpenFault string | WriteFault string nat

text \<open>
  \<open>with open(s, 'wb') as f: f.write(data)\<close>. The directory of the file must exist; the
  file is created, or truncated when it exists, and holds \<open>data\<close> afterwards.
\<close>

definition open_write ::
  "filesystem \<Rightarrow> io_fault option \<Rightarrow> string \<Rightarrow> bytes \<Rightarrow> (py_exception + unit) \<times> filesystem" where
  "open_write fs fault s data =
     (if CHR 0x00 \<in> set s then (Inl (ValueError ''embedded null byte''), fs)
      else if s = [] then (Inl (FileNotFoundError s), fs)
      else (case walk fs s (path_start fs s) (butlast (split_path s)) of
              Inl e \<Rightarrow> (Inl e, fs)
            | Inr parent \<Rightarrow>
                (let c = last (split_path s) in
                 if \<not> node_exists fs parent then (Inl (FileNotFoundError s), fs)
                 else if \<not> is_dir fs parent then (Inl (NotADirectoryError s), fs)
                 else if c = [] \<or> c = ''.'' \<or> c = ''..'' then (Inl (IsADirectoryError s), fs)
                 else (case lookup fs (parent @ [c]) of
                         Some Directory \<Rightarrow> (Inl (IsADirectoryError s), fs)
                       | _ \<Rightarrow>
                         (case fault of
                            Some (OpenFault m) \<Rightarrow> (Inl (OSError m), fs)
                          | Some (WriteFault m k) \<Rightarrow>
                              (Inl (OSError m), put_node fs (parent @ [c]) (RegularFile (take k data)))
                          | None \<Rightarrow>
                              (Inr (), put_node fs (parent @ [c]) (RegularFile data)))))))"

text \<open>The content of the regular file a path string names.\<close>

definition read_file :: "filesystem \<Rightarrow> string \<Rightarrow> bytes option" where
  "read_file fs s =
     (case resolve fs s of
        Inl e \<Rightarrow> None
      | Inr p \<Rightarrow> (case lookup fs p of Some (RegularFile b) \<Rightarrow> Some b | _ \<Rightarrow> None))"

text \<open>
  \<open>Path(s).mkdir(parents=True, exist_ok=True)\<close>: the missing directories along the path
  are created; a regular file in the way is an error.
\<close>

fun makedirs ::
  "filesystem \<Rightarrow> string \<Rightarrow> path \<Rightarrow> string list \<Rightarrow> (py_exception + unit) \<times> filesystem" where
  "makedirs fs s cur [] = (Inr (), fs)"
| "makedirs fs s cur (c # cs) =
     (if \<not> node_exists fs cur then (Inl (FileNotFoundError s), fs)
      else if \<not> is_dir fs cur then (Inl (NotADirectoryError s), fs)
      else if c = [] \<or> c = ''.'' then makedirs fs s cur cs
      else if c = ''..'' then makedirs fs s (butlast cur) cs
      else (case lookup fs (cur @ [c]) of
              None \<Rightarrow> makedirs (put_node fs (cur @ [c]) Directory) s (cur @ [c]) cs
            | Some Directory \<Rightarrow> makedirs fs s (cur @ [c]) cs
            | Some (RegularFile b) \<Rightarrow>
                (Inl (if cs = [] then FileExistsError s else NotADirectoryError s), fs)))"

definition path_mkdir :: "filesystem \<Rightarrow> string \<Rightarrow> (py_exception + unit) \<times> filesystem" where
  "path_mkdir fs s = makedirs fs s (path_start fs s) (split_path s)"

subsection \<open>The handlers\<close>

definition UPLOAD_DIR :: string where
  "UPLOAD_DIR = ''./uploaded_audio''"

text \<open>
  \<open>Path(UPLOAD_DIR).mkdir(parents=True, exist_ok=True)\<close>, run once when the module is
  loaded.
\<close>

definition startup :: "filesystem \<Rightarrow> (py_exception + unit) \<times> filesystem" where
  "startup fs = path_mkdir fs UPLOAD_DIR"

text \<open>
  The allow-list is a Python set; the list gives its members, and the order in which the
  rejection message joins them is the order of the list.
\<close>

definition SUPPORTED_AUDIO_FORMATS :: "string list" where
  "SUPPORTED_AUDIO_FORMATS =
     [''.mp3'', ''.wav'', ''.m4a'', ''.flac'', ''.ogg'', ''.aac'', ''.wma'', ''.opus'']"

definition MAX_FILE_SIZE :: nat where
  "MAX_FILE_SIZE = 100 * 1024 * 1024"

text \<open>The uploaded part: its file name and the bytes \<open>file.read()\<close> returns.\<close>

record UploadFile =
  filename :: string
  content :: bytes

record UploadResponse =
  status :: string
  filename :: string
  file_size_mb :: rat
  file_path :: string
  audio_format :: string
  message :: string

record StatusResponse =
  status :: string
  message :: string
  total_files :: "nat option"

record FileEntry =
  filename :: string
  size_mb :: rat
  path :: string

record FilesResponse =
  total_files :: nat
  files :: "FileEntry list"

definition parse_audio ::
  "filesystem \<Rightarrow> io_fault option \<Rightarrow> bytes \<Rightarrow> string \<Rightarrow> (py_exception + string) \<times> filesystem" where
  "parse_audio fs fault file_content file_name =
     (let output_path = os_path_join UPLOAD_DIR file_name in
      case open_write fs fault output_path file_content of
        (Inr u, fs') \<Rightarrow> (Inr output_path, fs')
      | (Inl e, fs') \<Rightarrow>
          (Inl (Exception (''Failed to save uploaded Audio: '' @ str_exc e)), fs'))"

definition upload_audio ::
  "filesystem \<Rightarrow> io_fault option \<Rightarrow> UploadFile
     \<Rightarrow> (http_exception + UploadResponse) \<times> filesystem" where
  "upload_audio fs fault file =
     (let file_extension = lower (snd (os_path_splitext (UploadFile.filename file))) in
      if file_extension \<notin> set SUPPORTED_AUDIO_FORMATS then
        (Inl (HTTPException 400
           (''Unsupported audio format. Supported formats: ''
              @ join_sep '', '' SUPPORTED_AUDIO_FORMATS)), fs)
      else
        (let file_content = content file in
         if length file_content > MAX_FILE_SIZE then
           (Inl (HTTPException 413 ''File too large. Maximum size is 100.0MB''), fs)
         else if length file_content = 0 then
           (Inl (HTTPException 400 ''Empty file uploaded''), fs)
         else
           (let file_size_bytes = length file_content;
                file_size_mb' = of_nat file_size_bytes / (1024 * 1024)
            in case parse_audio fs fault file_content (UploadFile.filename file) of
                 (Inr file_path', fs') \<Rightarrow>
                   (Inr \<lparr>UploadResponse.status = ''success'',
                         UploadResponse.filename = os_path_basename file_path',
                         file_size_mb = py_round2 file_size_mb',
                         file_path = file_path',
                         audio_format = lstrip_dot file_extension,
                         UploadResponse.message =
                           ''Successfully uploaded audio file: '' @ os_path_basename file_path'\<rparr>,
                    fs')
               | (Inl e, fs') \<Rightarrow>
                   (Inl (HTTPException 500 (''Internal server error: '' @ str_exc e)), fs'))))"

definition health_check :: "filesystem \<Rightarrow> (http_exception + StatusResponse) \<times> filesystem" where
  "health_check fs =
     (case (if \<not> os_path_exists fs UPLOAD_DIR then path_mkdir fs UPLOAD_DIR else (Inr (), fs)) of
        (Inl e, fs1) \<Rightarrow> (Inl (HTTPException 503 ''Service unhealthy''), fs1)
      | (Inr u, fs1) \<Rightarrow>
          (case os_listdir fs1 UPLOAD_DIR of
             Inl e \<Rightarrow> (Inl (HTTPException 503 ''Service unhealthy''), fs1)
           | Inr names \<Rightarrow>
               (Inr \<lparr>StatusResponse.status = ''healthy'',
                     StatusResponse.message = ''Audio Ingestion API is running'',
                     StatusResponse.total_files =
                       Some (length (filter (\<lambda>f. os_path_isfile fs1 (os_path_join UPLOAD_DIR f)) names))\<rparr>,
                fs1)))"

text \<open>The loop of \<open>list_files\<close>, with the list \<open>files\<close> it appends to. A local variable that
  shares its name with a field of a response carries a prime.\<close>

fun list_loop :: "filesystem \<Rightarrow> FileEntry list \<Rightarrow> string list \<Rightarrow> py_exception + FileEntry list" where
  "list_loop fs files' [] = Inr files'"
| "list_loop fs files' (fname # rest) =
     (let file_path' = os_path_join UPLOAD_DIR fname in
      if os_path_isfile fs file_path' then
        (case os_path_getsize fs file_path' of
           Inl e \<Rightarrow> Inl e
         | Inr sz \<Rightarrow>
             list_loop fs
               (files' @ [\<lparr>FileEntry.filename = fname,
                          size_mb = py_round2 (of_nat sz / (1024 * 1024)),
                          path = file_path'\<rparr>])
               rest)
      else list_loop fs files' rest)"

definition list_files :: "filesystem \<Rightarrow> http_exception + FilesResponse" where
  "list_files fs =
     (case os_listdir fs UPLOAD_DIR of
        Inl e \<Rightarrow> Inl (HTTPException 500 (''Failed to list files: '' @ str_exc e))
      | Inr names \<Rightarrow>
          (case list_loop fs [] names of
             Inl e \<Rightarrow> Inl (HTTPException 500 (''Failed to list files: '' @ str_exc e))
           | Inr files' \<Rightarrow>
               Inr \<lparr>FilesResponse.total_files = length files', files = files'\<rparr>))"

text \<open>The status code of an outcome: a returned response model is HTTP 200.\<close>

definition http_status :: "http_exception + 'a \<Rightarrow> nat" where
  "http_status r = (case r of Inl e \<Rightarrow> status_code e | Inr v \<Rightarrow> 200)"

subsection \<open>Well-formed filesystem states\<close>

text \<open>
  A node list is the state of a filesystem when no path occurs twice, every component
  of a path is a file name (not empty, not \<open>.\<close> or \<open>..\<close>, without a slash or a null
  byte), and every node lies in a directory.
\<close>

definition valid_name :: "string \<Rightarrow> bool" where
  "valid_name c =
     (c \<noteq> [] \<and> c \<noteq> ''.'' \<and> c \<noteq> ''..'' \<and> CHR ''/'' \<notin> set c \<and> CHR 0x00 \<notin> set c)"

definition wf_fs :: "filesystem \<Rightarrow> bool" where
  "wf_fs fs =
     (distinct (map fst (nodes fs)) \<and>
      list_all (\<lambda>(p, n). p \<noteq> [] \<and> list_all valid_name p \<and> is_dir fs (butlast p)) (nodes fs))"

text \<open>The node that \<open>UPLOAD_DIR\<close> names: the storage directory.\<close>

definition storage_dir :: "filesystem \<Rightarrow> path" where
  "storage_dir fs = cwd fs @ [''uploaded_audio'']"

definition is_regular :: "node \<Rightarrow> bool" where
  "is_regular n = (case n of RegularFile b \<Rightarrow> True | Directory \<Rightarrow> False)"

text \<open>The number of regular files that lie directly in the directory \<open>d\<close>.\<close>

definition regular_files_in :: "filesystem \<Rightarrow> path \<Rightarrow> nat" where
  "regular_files_in fs d =
     length (filter (\<lambda>(q, n). q \<noteq> [] \<and> butlast q = d \<and> is_regular n) (nodes fs))"

text \<open>The response \<open>upload_audio\<close> returns for the file name \<open>n\<close> and the content \<open>data\<close>.\<close>

definition success_response :: "string \<Rightarrow> bytes \<Rightarrow> UploadResponse" where
  "success_response n data =
     \<lparr>UploadResponse.status = ''success'',
      UploadResponse.filename = os_path_basename (os_path_join UPLOAD_DIR n),
      file_size_mb = py_round2 (of_nat (length data) / 1048576),
      file_path = os_path_join UPLOAD_DIR n,
      audio_format = lstrip_dot (lower (snd (os_path_splitext n))),
      UploadResponse.message =
        ''Successfully uploaded audio file: '' @ os_path_basename (os_path_join UPLOAD_DIR n)\<rparr>"

section \<open>Properties\<close>

subsection \<open>Extensions and validation\<close>

lemma rfind_lower_bound: "- 1 \<le> rfind c p"
  by (induction p) (auto simp: Let_def)

lemma rfind_absent: "c \<notin> set p \<Longrightarrow> rfind c p = - 1"
  by (induction p) (auto simp: Let_def)

lemma splitext_no_dot: "CHR ''.'' \<notin> set p \<Longrightarrow> snd (os_path_splitext p) = []"
  using rfind_lower_bound [of "CHR ''/''" p]
  by (simp add: os_path_splitext_def rfind_absent Let_def)

lemma splitext_leading_dot:
  assumes "CHR ''.'' \<notin> set r" and "CHR ''/'' \<notin> set r"
  shows "snd (os_path_splitext (CHR ''.'' # r)) = []"
  using assms
  by (simp add: os_path_splitext_def rfind_absent Let_def skip_leading_dots.simps)

lemma supported_formats_set:
  "set SUPPORTED_AUDIO_FORMATS =
     {''.mp3'', ''.wav'', ''.m4a'', ''.flac'', ''.ogg'', ''.aac'', ''.wma'', ''.opus''}"
  by (simp add: SUPPORTED_AUDIO_FORMATS_def)

lemma upload_unsupported:
  assumes "lower (snd (os_path_splitext (UploadFile.filename req))) \<notin> set SUPPORTED_AUDIO_FORMATS"
  shows "upload_audio fs fault req =
           (Inl (HTTPException 400
              (''Unsupported audio format. Supported formats: ''
                 @ join_sep '', '' SUPPORTED_AUDIO_FORMATS)), fs)"
  using assms by (simp add: upload_audio_def)

text \<open>
  Claim C2. An upload whose file name has a lower-cased extension outside the eight
  supported ones is answered with HTTP 400, whatever its content: the outcome is the
  same for every content, and the filesystem is left as it was.
\<close>

theorem upload_rejects_unsupported_extension:
  assumes "lower (snd (os_path_splitext (UploadFile.filename req))) \<notin>
             {''.mp3'', ''.wav'', ''.m4a'', ''.flac'', ''.ogg'', ''.aac'', ''.wma'', ''.opus''}"
  shows "http_status (fst (upload_audio fs fault req)) = 400
         \<and> snd (upload_audio fs fault req) = fs
         \<and> (\<forall>c. fst (upload_audio fs fault (req\<lparr>content := c\<rparr>)) = fst (upload_audio fs fault req))"
proof -
  have ext: "lower (snd (os_path_splitext (UploadFile.filename req))) \<notin> set SUPPORTED_AUDIO_FORMATS"
    unfolding supported_formats_set by (rule assms)
  have "upload_audio fs fault (req\<lparr>content := c\<rparr>) = upload_audio fs fault req" for c
  proof -
    have "UploadFile.filename (req\<lparr>content := c\<rparr>) = UploadFile.filename req"
      by simp
    with ext show ?thesis
      by (simp add: upload_unsupported)
  qed
  then show ?thesis
    using ext by (simp add: upload_unsupported http_status_def)
qed

theorem upload_rejects_unsupported_extension_witness:
  "lower (snd (os_path_splitext ''notes.txt'')) \<notin>
      {''.mp3'', ''.wav'', ''.m4a'', ''.flac'', ''.ogg'', ''.aac'', ''.wma'', ''.opus''}
   \<and> http_status (fst (upload_audio \<lparr>nodes = [([''srv''], Directory)], cwd = [''srv'']\<rparr> None
         \<lparr>UploadFile.filename = ''notes.txt'', content = [1, 2, 3]\<rparr>)) = 400"
proof -
  have h: "lower (snd (os_path_splitext (UploadFile.filename
              \<lparr>UploadFile.filename = ''notes.txt'', content = [1, 2, 3]\<rparr>))) \<notin>
      {''.mp3'', ''.wav'', ''.m4a'', ''.flac'', ''.ogg'', ''.aac'', ''.wma'', ''.opus''}"
    by code_simp
  from upload_rejects_unsupported_extension [OF h] h show ?thesis by simp
qed

text \<open>
  Claim C3. With a supported extension, the answer is HTTP 413 exactly when the content
  is longer than 104857600 bytes (100 MiB); a content of exactly that length passes.
\<close>

theorem upload_413_iff_too_large:
  assumes "lower (snd (os_path_splitext (UploadFile.filename req))) \<in>
             {''.mp3'', ''.wav'', ''.m4a'', ''.flac'', ''.ogg'', ''.aac'', ''.wma'', ''.opus''}"
  shows "(http_status (fst (upload_audio fs fault req)) = 413)
           = (104857600 < length (content req))"
proof -
  have ext: "lower (snd (os_path_splitext (UploadFile.filename req))) \<in> set SUPPORTED_AUDIO_FORMATS"
    unfolding supported_formats_set by (rule assms)
  show ?thesis
    using ext
    by (simp add: upload_audio_def http_status_def MAX_FILE_SIZE_def Let_def
             split: prod.splits sum.splits)
qed


theorem upload_413_iff_too_large_witness:
  "lower (snd (os_path_splitext ''talk.WAV'')) \<in>
      {''.mp3'', ''.wav'', ''.m4a'', ''.flac'', ''.ogg'', ''.aac'', ''.wma'', ''.opus''}
   \<and> http_status (fst (upload_audio \<lparr>nodes = [], cwd = []\<rparr> None
         \<lparr>UploadFile.filename = ''talk.WAV'', content = replicate 104857601 0\<rparr>)) = 413
   \<and> http_status (fst (upload_audio \<lparr>nodes = [], cwd = []\<rparr> None
         \<lparr>UploadFile.filename = ''talk.WAV'', content = replicate 104857600 0\<rparr>)) \<noteq> 413"
proof -
  have h: "lower (snd (os_path_splitext (UploadFile.filename
              \<lparr>UploadFile.filename = ''talk.WAV'', content = c\<rparr>))) \<in>
      {''.mp3'', ''.wav'', ''.m4a'', ''.flac'', ''.ogg'', ''.aac'', ''.wma'', ''.opus''}" for c
    by code_simp
  from upload_413_iff_too_large [OF h [of "replicate 104857601 0"],
         where fs = "\<lparr>nodes = [], cwd = []\<rparr>" and fault = None]
       upload_413_iff_too_large [OF h [of "replicate 104857600 0"],
         where fs = "\<lparr>nodes = [], cwd = []\<rparr>" and fault = None]
       h [of "[]"]
  show ?thesis by simp
qed

text \<open>
  Claim C4. An upload with no bytes is answered with HTTP 400, as an empty file when the
  extension is supported and as an unsupported format otherwise, and the filesystem is
  left as it was.
\<close>

theorem upload_empty_file:
  assumes "content req = []"
  shows "upload_audio fs fault req =
           (Inl (HTTPException 400
              (if lower (snd (os_path_splitext (UploadFile.filename req)))
                    \<in> set SUPPORTED_AUDIO_FORMATS
               then ''Empty file uploaded''
               else ''Unsupported audio format. Supported formats: ''
                      @ join_sep '', '' SUPPORTED_AUDIO_FORMATS)), fs)
         \<and> http_status (fst (upload_audio fs fault req)) = 400"
proof (cases "lower (snd (os_path_splitext (UploadFile.filename req))) \<in> set SUPPORTED_AUDIO_FORMATS")
  case True
  with assms show ?thesis
    by (simp add: upload_audio_def http_status_def MAX_FILE_SIZE_def Let_def)
next
  case False
  then show ?thesis
    by (simp add: upload_unsupported http_status_def)
qed

theorem upload_empty_file_witness:
  "upload_audio \<lparr>nodes = [([''srv''], Directory), ([''srv'', ''uploaded_audio''], Directory)], cwd = [''srv'']\<rparr> None
      \<lparr>UploadFile.filename = ''empty.mp3'', content = []\<rparr>
     = (Inl (HTTPException 400 ''Empty file uploaded''),
        \<lparr>nodes = [([''srv''], Directory), ([''srv'', ''uploaded_audio''], Directory)], cwd = [''srv'']\<rparr>)"
proof -
  have e: "content \<lparr>UploadFile.filename = ''empty.mp3'', content = []\<rparr> = []"
    by simp
  have x: "lower (snd (os_path_splitext ''empty.mp3'')) \<in> set SUPPORTED_AUDIO_FORMATS"
    by code_simp
  from upload_empty_file [OF e] x show ?thesis by simp
qed

text \<open>
  Claim C10. A file name without an extension is answered with HTTP 400: whenever
  \<open>splitext\<close> returns the empty extension, in particular for a name without a dot and for
  a name such as \<open>.mp3\<close> whose only dot is the leading one.
\<close>

theorem upload_no_extension:
  "(snd (os_path_splitext (UploadFile.filename req)) = []
      \<longrightarrow> http_status (fst (upload_audio fs fault req)) = 400)
   \<and> (CHR ''.'' \<notin> set (UploadFile.filename req)
      \<longrightarrow> http_status (fst (upload_audio fs fault req)) = 400)
   \<and> (CHR ''.'' \<notin> set r \<and> CHR ''/'' \<notin> set r
      \<longrightarrow> http_status (fst (upload_audio fs fault \<lparr>UploadFile.filename = CHR ''.'' # r, content = c\<rparr>)) = 400)"
proof -
  have none: "http_status (fst (upload_audio fs' fault' f)) = 400"
    if "snd (os_path_splitext (UploadFile.filename f)) = []" for fs' fault' f
  proof -
    have "lower (snd (os_path_splitext (UploadFile.filename f))) \<notin> set SUPPORTED_AUDIO_FORMATS"
      using that by (simp add: lower_def SUPPORTED_AUDIO_FORMATS_def)
    then show ?thesis
      by (simp add: upload_unsupported http_status_def)
  qed
  show ?thesis
    by (auto intro!: none simp: splitext_no_dot splitext_leading_dot)
qed

theorem upload_no_extension_witness:
  "snd (os_path_splitext ''.mp3'') = []
   \<and> http_status (fst (upload_audio \<lparr>nodes = [([''srv''], Directory), ([''srv'', ''uploaded_audio''], Directory)], cwd = [''srv'']\<rparr> None
         \<lparr>UploadFile.filename = ''.mp3'', content = [1, 2, 3]\<rparr>)) = 400
   \<and> http_status (fst (upload_audio \<lparr>nodes = [([''srv''], Directory), ([''srv'', ''uploaded_audio''], Directory)], cwd = [''srv'']\<rparr> None
         \<lparr>UploadFile.filename = ''README'', content = [1, 2, 3]\<rparr>)) = 400"
proof -
  have a: "snd (os_path_splitext ''.mp3'') = []"
    by code_simp
  have b: "CHR ''.'' \<notin> set ''README''"
    by simp
  from upload_no_extension [where req = "\<lparr>UploadFile.filename = ''.mp3'', content = [1, 2, 3]\<rparr>"]
       upload_no_extension [where req = "\<lparr>UploadFile.filename = ''README'', content = [1, 2, 3]\<rparr>"]
       a b
  show ?thesis by simp
qed


subsection \<open>Paths and the filesystem\<close>

lemma lookup_put_node: "lookup (put_node fs p n) q = (if q = p then Some n else lookup fs q)"
  by (simp add: lookup_def put_node_def update_conv')

lemma cwd_put_node: "cwd (put_node fs p n) = cwd fs"
  by (simp add: put_node_def)

lemma put_node_twice: "put_node (put_node fs p n) p n' = put_node fs p n'"
  by (simp add: put_node_def)

lemma split_path_no_sep: "CHR ''/'' \<notin> set s \<Longrightarrow> split_path s = [s]"
  by (induction s) auto

lemma split_path_not_Nil: "split_path s \<noteq> []"
  by (induction s) (auto split: list.splits)

lemma split_path_upload:
  "CHR ''/'' \<notin> set n \<Longrightarrow> split_path (''./uploaded_audio/'' @ n) = [''.'', ''uploaded_audio'', n]"
  by (simp add: split_path_no_sep)

lemma split_path_upload_dir: "split_path UPLOAD_DIR = [''.'', ''uploaded_audio'']"
  by (simp add: UPLOAD_DIR_def)

lemma join_upload:
  "take 1 n \<noteq> ''/'' \<Longrightarrow> os_path_join UPLOAD_DIR n = ''./uploaded_audio/'' @ n"
  by (simp add: os_path_join_def UPLOAD_DIR_def)

lemma no_sep_take1: "CHR ''/'' \<notin> set n \<Longrightarrow> take 1 n \<noteq> ''/''"
  by (cases n) auto

lemma rfind_last_occurrence: "c \<notin> set ys \<Longrightarrow> rfind c (xs @ c # ys) = int (length xs)"
  by (induction xs) (auto simp: Let_def rfind_absent)

lemma basename_after_sep:
  assumes "CHR ''/'' \<notin> set n"
  shows "os_path_basename (d @ CHR ''/'' # n) = n"
proof -
  have "nat (int (length d) + 1) = Suc (length d)"
    by simp
  then show ?thesis
    unfolding os_path_basename_def rfind_last_occurrence [OF assms] by simp
qed

lemma basename_upload:
  assumes "CHR ''/'' \<notin> set n"
  shows "os_path_basename (''./uploaded_audio/'' @ n) = n"
proof -
  have "''./uploaded_audio/'' @ n = ''./uploaded_audio'' @ CHR ''/'' # n"
    by simp
  then show ?thesis
    by (simp only: basename_after_sep [OF assms])
qed

lemma lstrip_dot_supported:
  "x \<in> set SUPPORTED_AUDIO_FORMATS \<Longrightarrow> lstrip_dot x = tl x \<and> CHR ''.'' \<notin> set (tl x) \<and> hd x = CHR ''.''"
  by (auto simp: SUPPORTED_AUDIO_FORMATS_def lstrip_dot_def)

lemma is_dir_exists: "is_dir fs p \<Longrightarrow> node_exists fs p"
  by (auto simp: is_dir_def node_exists_def)

lemma is_dir_put_file:
  assumes "lookup fs t \<noteq> Some Directory" and "t \<noteq> []"
  shows "is_dir (put_node fs t (RegularFile b)) q = is_dir fs q"
  using assms by (auto simp: is_dir_def lookup_put_node)

lemma walk_append:
  "walk fs s cur (xs @ ys) = (case walk fs s cur xs of Inl e \<Rightarrow> Inl e | Inr p \<Rightarrow> walk fs s p ys)"
  by (induction xs arbitrary: cur) auto

lemma walk_Inr_cong:
  assumes "\<And>q. is_dir fs' q = is_dir fs q"
  shows "(walk fs' s cur cs = Inr p) = (walk fs s cur cs = Inr p)"
proof (induction cs arbitrary: cur)
  case Nil
  show ?case by simp
next
  case (Cons c cs)
  show ?case
  proof (cases "is_dir fs cur")
    case True
    then have "is_dir fs' cur" "node_exists fs cur" "node_exists fs' cur"
      using assms is_dir_exists by blast+
    with True Cons show ?thesis by simp
  next
    case False
    then have "\<not> is_dir fs' cur" using assms by simp
    with False show ?thesis by simp
  qed
qed

lemma open_write_InrD:
  assumes "open_write fs fault s data = (Inr u, fs')"
  shows "\<exists>P. CHR 0x00 \<notin> set s \<and> s \<noteq> []
           \<and> walk fs s (path_start fs s) (butlast (split_path s)) = Inr P
           \<and> is_dir fs P
           \<and> last (split_path s) \<noteq> [] \<and> last (split_path s) \<noteq> ''.''
           \<and> last (split_path s) \<noteq> ''..''
           \<and> lookup fs (P @ [last (split_path s)]) \<noteq> Some Directory
           \<and> fault = None
           \<and> fs' = put_node fs (P @ [last (split_path s)]) (RegularFile data)"
  using assms
  by (auto simp: open_write_def Let_def
           split: if_splits sum.splits option.splits node.splits io_fault.splits)

lemma open_write_InrI:
  assumes "CHR 0x00 \<notin> set s" and "s \<noteq> []"
    and "walk fs s (path_start fs s) (butlast (split_path s)) = Inr P"
    and "is_dir fs P"
    and "last (split_path s) \<noteq> []" and "last (split_path s) \<noteq> ''.''"
    and "last (split_path s) \<noteq> ''..''"
    and "lookup fs (P @ [last (split_path s)]) \<noteq> Some Directory"
  shows "open_write fs None s data
           = (Inr (), put_node fs (P @ [last (split_path s)]) (RegularFile data))"
  using assms is_dir_exists [of fs P]
  by (auto simp: open_write_def Let_def split: option.splits node.splits)

lemma path_start_put_node: "path_start (put_node fs t n) s = path_start fs s"
  by (simp add: path_start_def cwd_put_node)

lemma read_after_write:
  assumes "open_write fs fault s data = (Inr u, fs')"
  shows "read_file fs' s = Some data"
proof -
  from open_write_InrD [OF assms] obtain P where P:
    "CHR 0x00 \<notin> set s" "s \<noteq> []"
    "walk fs s (path_start fs s) (butlast (split_path s)) = Inr P"
    "is_dir fs P"
    "last (split_path s) \<noteq> []" "last (split_path s) \<noteq> ''.''" "last (split_path s) \<noteq> ''..''"
    "lookup fs (P @ [last (split_path s)]) \<noteq> Some Directory"
    "fs' = put_node fs (P @ [last (split_path s)]) (RegularFile data)"
    by blast
  let ?c = "last (split_path s)"
  have dir: "is_dir fs' q = is_dir fs q" for q
    unfolding P(9) using P(8) by (rule is_dir_put_file) simp
  have "walk fs' s (path_start fs' s) (butlast (split_path s)) = Inr P"
    using P(3) walk_Inr_cong [of fs' fs, OF dir] by (simp add: P(9) path_start_put_node)
  moreover have "split_path s = butlast (split_path s) @ [?c]"
    using split_path_not_Nil [of s] by simp
  moreover have "walk fs' s P [?c] = Inr (P @ [?c])"
    using P(4,5,6,7) dir [of P] is_dir_exists [of fs' P] by simp
  ultimately have "walk fs' s (path_start fs' s) (split_path s) = Inr (P @ [?c])"
    using walk_append [of fs' s "path_start fs' s" "butlast (split_path s)" "[?c]"] by simp
  moreover have "lookup fs' (P @ [?c]) = Some (RegularFile data)"
    by (simp add: P(9) lookup_put_node)
  ultimately show ?thesis
    using P(1,2) by (simp add: read_file_def resolve_def node_exists_def)
qed

subsection \<open>Uploads\<close>

lemma parse_audio_Inr:
  "open_write fs fault (os_path_join UPLOAD_DIR n) data = (Inr u, fs')
     \<Longrightarrow> parse_audio fs fault data n = (Inr (os_path_join UPLOAD_DIR n), fs')"
  by (simp add: parse_audio_def Let_def)

lemma parse_audio_Inl:
  "open_write fs fault (os_path_join UPLOAD_DIR n) data = (Inl e, fs')
     \<Longrightarrow> parse_audio fs fault data n
           = (Inl (Exception (''Failed to save uploaded Audio: '' @ str_exc e)), fs')"
  by (simp add: parse_audio_def Let_def)

lemma upload_validated:
  assumes "lower (snd (os_path_splitext (UploadFile.filename req))) \<in> set SUPPORTED_AUDIO_FORMATS"
    and "0 < length (content req)" and "length (content req) \<le> 104857600"
  shows "upload_audio fs fault req =
     (case parse_audio fs fault (content req) (UploadFile.filename req) of
        (Inr p, fs') \<Rightarrow>
           (Inr \<lparr>UploadResponse.status = ''success'',
                 UploadResponse.filename = os_path_basename p,
                 file_size_mb = py_round2 (of_nat (length (content req)) / 1048576),
                 file_path = p,
                 audio_format = lstrip_dot (lower (snd (os_path_splitext (UploadFile.filename req)))),
                 UploadResponse.message =
                   ''Successfully uploaded audio file: '' @ os_path_basename p\<rparr>, fs')
      | (Inl e, fs') \<Rightarrow>
           (Inl (HTTPException 500 (''Internal server error: '' @ str_exc e)), fs'))"
  using assms by (simp add: upload_audio_def MAX_FILE_SIZE_def Let_def)

text \<open>
  Claim C9. When the write fails after the validations have passed, the answer is
  HTTP 500 and its detail ends with the message of the exception that \<open>open\<close> or
  \<open>write\<close> raised; the handler returns this outcome instead of raising.
\<close>

theorem upload_write_failure:
  assumes "lower (snd (os_path_splitext (UploadFile.filename req))) \<in>
             {''.mp3'', ''.wav'', ''.m4a'', ''.flac'', ''.ogg'', ''.aac'', ''.wma'', ''.opus''}"
    and "0 < length (content req)" and "length (content req) \<le> 104857600"
    and "open_write fs fault (os_path_join UPLOAD_DIR (UploadFile.filename req)) (content req)
           = (Inl e, fs')"
  shows "upload_audio fs fault req =
           (Inl (HTTPException 500
              (''Internal server error: Failed to save uploaded Audio: '' @ str_exc e)), fs')"
proof -
  have ext: "lower (snd (os_path_splitext (UploadFile.filename req))) \<in> set SUPPORTED_AUDIO_FORMATS"
    using assms(1) by (simp only: supported_formats_set)
  show ?thesis
    by (simp add: upload_validated [OF ext assms(2,3)] parse_audio_Inl [OF assms(4)])
qed

theorem upload_write_failure_witness:
  "upload_audio
      \<lparr>nodes = [([''srv''], Directory), ([''srv'', ''uploaded_audio''], Directory)], cwd = [''srv'']\<rparr>
      (Some (OpenFault ''[Errno 28] No space left on device''))
      \<lparr>UploadFile.filename = ''song.mp3'', content = [1, 2, 3]\<rparr>
     = (Inl (HTTPException 500
          ''Internal server error: Failed to save uploaded Audio: [Errno 28] No space left on device''),
        \<lparr>nodes = [([''srv''], Directory), ([''srv'', ''uploaded_audio''], Directory)], cwd = [''srv'']\<rparr>)"
proof -
  let ?fs = "\<lparr>nodes = [([''srv''], Directory), ([''srv'', ''uploaded_audio''], Directory)], cwd = [''srv'']\<rparr>"
  let ?req = "\<lparr>UploadFile.filename = ''song.mp3'', content = [1, 2, 3]\<rparr>"
  have a: "lower (snd (os_path_splitext (UploadFile.filename ?req))) \<in>
             {''.mp3'', ''.wav'', ''.m4a'', ''.flac'', ''.ogg'', ''.aac'', ''.wma'', ''.opus''}"
    by code_simp
  have b: "0 < length (content ?req)" "length (content ?req) \<le> 104857600"
    by simp_all
  have c: "open_write ?fs (Some (OpenFault ''[Errno 28] No space left on device''))
             (os_path_join UPLOAD_DIR (UploadFile.filename ?req)) (content ?req)
           = (Inl (OSError ''[Errno 28] No space left on device''), ?fs)"
    by code_simp
  from upload_write_failure [OF a b c] show ?thesis by simp
qed

lemma upload_InrD:
  assumes "upload_audio fs fault req = (Inr resp, fs')"
  shows "lower (snd (os_path_splitext (UploadFile.filename req))) \<in> set SUPPORTED_AUDIO_FORMATS
         \<and> 0 < length (content req) \<and> length (content req) \<le> 104857600
         \<and> open_write fs fault (os_path_join UPLOAD_DIR (UploadFile.filename req)) (content req)
              = (Inr (), fs')"
  using assms
  by (auto simp: upload_audio_def parse_audio_def MAX_FILE_SIZE_def Let_def
           split: if_splits prod.splits sum.splits)

lemma upload_InrI:
  assumes "lower (snd (os_path_splitext (UploadFile.filename req))) \<in> set SUPPORTED_AUDIO_FORMATS"
    and "0 < length (content req)" and "length (content req) \<le> 104857600"
    and "open_write fs fault (os_path_join UPLOAD_DIR (UploadFile.filename req)) (content req)
           = (Inr u, fs')"
  shows "upload_audio fs fault req =
     (Inr \<lparr>UploadResponse.status = ''success'',
           UploadResponse.filename = os_path_basename (os_path_join UPLOAD_DIR (UploadFile.filename req)),
           file_size_mb = py_round2 (of_nat (length (content req)) / 1048576),
           file_path = os_path_join UPLOAD_DIR (UploadFile.filename req),
           audio_format = lstrip_dot (lower (snd (os_path_splitext (UploadFile.filename req)))),
           UploadResponse.message =
             ''Successfully uploaded audio file: ''
               @ os_path_basename (os_path_join UPLOAD_DIR (UploadFile.filename req))\<rparr>, fs')"
  by (simp add: upload_validated [OF assms(1,2,3)] parse_audio_Inr [OF assms(4)])

lemma upload_success:
  assumes "lower (snd (os_path_splitext n)) \<in> set SUPPORTED_AUDIO_FORMATS"
    and "0 < length data" and "length data \<le> 104857600"
    and "open_write fs fault (os_path_join UPLOAD_DIR n) data = (Inr u, fs')"
  shows "upload_audio fs fault \<lparr>UploadFile.filename = n, content = data\<rparr>
           = (Inr (success_response n data), fs')"
  using upload_InrI [of "\<lparr>UploadFile.filename = n, content = data\<rparr>" fs fault u fs'] assms
  by (simp add: success_response_def)

lemma upload_success_only:
  assumes "upload_audio fs fault \<lparr>UploadFile.filename = n, content = data\<rparr> = (Inr resp, fs')"
  shows "lower (snd (os_path_splitext n)) \<in> set SUPPORTED_AUDIO_FORMATS"
    and "0 < length data" and "length data \<le> 104857600"
    and "open_write fs fault (os_path_join UPLOAD_DIR n) data = (Inr (), fs')"
    and "resp = success_response n data"
proof -
  from upload_InrD [OF assms] show v:
    "lower (snd (os_path_splitext n)) \<in> set SUPPORTED_AUDIO_FORMATS"
    "0 < length data" "length data \<le> 104857600"
    "open_write fs fault (os_path_join UPLOAD_DIR n) data = (Inr (), fs')"
    by simp_all
  from upload_success [OF v] assms show "resp = success_response n data"
    by simp
qed

text \<open>
  Claim C6. After two successful uploads of the contents \<open>A\<close> and then \<open>B\<close> under one file
  name, the outcome and the filesystem are those of uploading \<open>B\<close> alone, and the
  stored file holds \<open>B\<close>.
\<close>

theorem upload_twice_overwrites:
  assumes first: "upload_audio fs fault1 \<lparr>UploadFile.filename = n, content = A\<rparr> = (Inr r1, fs1)"
    and second: "upload_audio fs1 fault2 \<lparr>UploadFile.filename = n, content = B\<rparr> = (Inr r2, fs2)"
  shows "upload_audio fs None \<lparr>UploadFile.filename = n, content = B\<rparr> = (Inr r2, fs2)
         \<and> read_file fs2 (file_path r2) = Some B"
proof -
  let ?s = "os_path_join UPLOAD_DIR n"
  let ?c = "last (split_path ?s)"
  note w1 = upload_success_only(4) [OF first]
  note v2 = upload_success_only(1-3) [OF second]
  note w2 = upload_success_only(4) [OF second]
  note r2 = upload_success_only(5) [OF second]
  from open_write_InrD [OF w1] obtain P where P:
    "CHR 0x00 \<notin> set ?s" "?s \<noteq> []"
    "walk fs ?s (path_start fs ?s) (butlast (split_path ?s)) = Inr P"
    "is_dir fs P" "?c \<noteq> []" "?c \<noteq> ''.''" "?c \<noteq> ''..''"
    "lookup fs (P @ [?c]) \<noteq> Some Directory"
    "fs1 = put_node fs (P @ [?c]) (RegularFile A)"
    by blast
  from open_write_InrD [OF w2] obtain Q where Q:
    "walk fs1 ?s (path_start fs1 ?s) (butlast (split_path ?s)) = Inr Q"
    "fs2 = put_node fs1 (Q @ [?c]) (RegularFile B)"
    by blast
  have dir: "is_dir fs1 q = is_dir fs q" for q
    unfolding P(9) using P(8) by (rule is_dir_put_file) simp
  have "walk fs ?s (path_start fs ?s) (butlast (split_path ?s)) = Inr Q"
    using Q(1) walk_Inr_cong [of fs1 fs, OF dir] by (simp add: P(9) path_start_put_node)
  with P(3) have "Q = P" by simp
  then have fs2: "fs2 = put_node fs (P @ [?c]) (RegularFile B)"
    by (simp add: Q(2) P(9) put_node_twice)
  have alone: "open_write fs None ?s B = (Inr (), fs2)"
    unfolding fs2 using P(1-8) by (rule open_write_InrI)
  have "upload_audio fs None \<lparr>UploadFile.filename = n, content = B\<rparr> = (Inr r2, fs2)"
    unfolding r2 using v2 alone by (rule upload_success)
  moreover have "file_path r2 = ?s"
    by (simp add: r2 success_response_def)
  ultimately show ?thesis
    using read_after_write [OF w2] by simp
qed

theorem upload_twice_overwrites_witness:
  "upload_audio
      \<lparr>nodes = [([''srv''], Directory), ([''srv'', ''uploaded_audio''], Directory)], cwd = [''srv'']\<rparr>
      None \<lparr>UploadFile.filename = ''song.mp3'', content = [9, 9]\<rparr>
     = (Inr \<lparr>UploadResponse.status = ''success'', filename = ''song.mp3'', file_size_mb = 0,
             file_path = ''./uploaded_audio/song.mp3'', audio_format = ''mp3'',
             message = ''Successfully uploaded audio file: song.mp3''\<rparr>,
        \<lparr>nodes = [([''srv''], Directory), ([''srv'', ''uploaded_audio''], Directory),
                  ([''srv'', ''uploaded_audio'', ''song.mp3''], RegularFile [9, 9])],
         cwd = [''srv'']\<rparr>)
   \<and> read_file
        \<lparr>nodes = [([''srv''], Directory), ([''srv'', ''uploaded_audio''], Directory),
                  ([''srv'', ''uploaded_audio'', ''song.mp3''], RegularFile [9, 9])],
         cwd = [''srv'']\<rparr>
        ''./uploaded_audio/song.mp3'' = Some [9, 9]"
proof -
  let ?fs = "\<lparr>nodes = [([''srv''], Directory), ([''srv'', ''uploaded_audio''], Directory)], cwd = [''srv'']\<rparr>"
  let ?fs1 = "\<lparr>nodes = [([''srv''], Directory), ([''srv'', ''uploaded_audio''], Directory),
                  ([''srv'', ''uploaded_audio'', ''song.mp3''], RegularFile [1, 2, 3])],
         cwd = [''srv'']\<rparr>"
  let ?fs2 = "\<lparr>nodes = [([''srv''], Directory), ([''srv'', ''uploaded_audio''], Directory),
                  ([''srv'', ''uploaded_audio'', ''song.mp3''], RegularFile [9, 9])],
         cwd = [''srv'']\<rparr>"
  have ext: "lower (snd (os_path_splitext ''song.mp3'')) \<in> set SUPPORTED_AUDIO_FORMATS"
    by code_simp
  have w1: "open_write ?fs None (os_path_join UPLOAD_DIR ''song.mp3'') [1, 2, 3] = (Inr (), ?fs1)"
    by code_simp
  have w2: "open_write ?fs1 None (os_path_join UPLOAD_DIR ''song.mp3'') [9, 9] = (Inr (), ?fs2)"
    by code_simp
  have a: "upload_audio ?fs None \<lparr>UploadFile.filename = ''song.mp3'', content = [1, 2, 3]\<rparr>
             = (Inr (success_response ''song.mp3'' [1, 2, 3]), ?fs1)"
    using ext _ _ w1 by (rule upload_success) simp_all
  have b: "upload_audio ?fs1 None \<lparr>UploadFile.filename = ''song.mp3'', content = [9, 9]\<rparr>
             = (Inr (success_response ''song.mp3'' [9, 9]), ?fs2)"
    using ext _ _ w2 by (rule upload_success) simp_all
  have r: "success_response ''song.mp3'' [9, 9] =
             \<lparr>UploadResponse.status = ''success'', filename = ''song.mp3'', file_size_mb = 0,
              file_path = ''./uploaded_audio/song.mp3'', audio_format = ''mp3'',
              message = ''Successfully uploaded audio file: song.mp3''\<rparr>"
    by code_simp
  from upload_twice_overwrites [OF a b] show ?thesis
    unfolding r by simp
qed

subsection \<open>The storage directory and the listing\<close>

lemma walk_upload_dir:
  "walk fs s (cwd fs) [''.'', ''uploaded_audio''] =
     (if \<not> node_exists fs (cwd fs) then Inl (FileNotFoundError s)
      else if \<not> is_dir fs (cwd fs) then Inl (NotADirectoryError s)
      else Inr (storage_dir fs))"
  by (simp add: storage_dir_def)

lemma path_start_upload_dir: "path_start fs UPLOAD_DIR = cwd fs"
  by (simp add: path_start_def UPLOAD_DIR_def)

lemma upload_dir_plain: "CHR 0x00 \<notin> set UPLOAD_DIR" "UPLOAD_DIR \<noteq> []"
  by (simp_all add: UPLOAD_DIR_def)

lemma resolve_upload_dir:
  "resolve fs UPLOAD_DIR =
     (if \<not> node_exists fs (cwd fs) then Inl (FileNotFoundError UPLOAD_DIR)
      else if \<not> is_dir fs (cwd fs) then Inl (NotADirectoryError UPLOAD_DIR)
      else if node_exists fs (storage_dir fs) then Inr (storage_dir fs)
      else Inl (FileNotFoundError UPLOAD_DIR))"
  by (simp add: resolve_def upload_dir_plain path_start_upload_dir split_path_upload_dir
        storage_dir_def)

lemma exists_upload_dir:
  "os_path_exists fs UPLOAD_DIR = (is_dir fs (cwd fs) \<and> node_exists fs (storage_dir fs))"
  using is_dir_exists [of fs "cwd fs"]
  by (auto simp: os_path_exists_def resolve_upload_dir)

lemma path_mkdir_upload_dir:
  "path_mkdir fs UPLOAD_DIR =
     (if \<not> node_exists fs (cwd fs) then (Inl (FileNotFoundError UPLOAD_DIR), fs)
      else if \<not> is_dir fs (cwd fs) then (Inl (NotADirectoryError UPLOAD_DIR), fs)
      else (case lookup fs (storage_dir fs) of
              None \<Rightarrow> (Inr (), put_node fs (storage_dir fs) Directory)
            | Some Directory \<Rightarrow> (Inr (), fs)
            | Some (RegularFile b) \<Rightarrow> (Inl (FileExistsError UPLOAD_DIR), fs)))"
  by (simp add: path_mkdir_def path_start_upload_dir split_path_upload_dir storage_dir_def
           split: option.splits node.splits)

lemma listdir_upload_dir:
  "os_listdir fs UPLOAD_DIR =
     (if \<not> node_exists fs (cwd fs) then Inl (FileNotFoundError UPLOAD_DIR)
      else if \<not> is_dir fs (cwd fs) then Inl (NotADirectoryError UPLOAD_DIR)
      else if \<not> node_exists fs (storage_dir fs) then Inl (FileNotFoundError UPLOAD_DIR)
      else if \<not> is_dir fs (storage_dir fs) then Inl (NotADirectoryError UPLOAD_DIR)
      else Inr (children fs (storage_dir fs)))"
  by (simp add: os_listdir_def resolve_upload_dir)

lemma storage_dir_put_node: "storage_dir (put_node fs p n) = storage_dir fs"
  by (simp add: storage_dir_def cwd_put_node)

lemma storage_dir_not_cwd: "storage_dir fs \<noteq> cwd fs" "storage_dir fs \<noteq> []"
  by (simp_all add: storage_dir_def)

text \<open>The loop of \<open>list_files\<close> never raises: it asks for the size of regular files only.\<close>

lemma isfile_getsize:
  "os_path_isfile fs s \<Longrightarrow> \<exists>sz. os_path_getsize fs s = Inr sz"
  by (auto simp: os_path_isfile_def os_path_getsize_def split: sum.splits option.splits node.splits)

lemma list_loop_eq:
  "list_loop fs acc names =
     Inr (acc @ map (\<lambda>f. \<lparr>FileEntry.filename = f,
                            size_mb = py_round2 (of_nat (case os_path_getsize fs (os_path_join UPLOAD_DIR f) of
                                         Inr sz \<Rightarrow> sz | Inl e \<Rightarrow> 0) / (1024 * 1024)),
                            path = os_path_join UPLOAD_DIR f\<rparr>)
                    (filter (\<lambda>f. os_path_isfile fs (os_path_join UPLOAD_DIR f)) names))"
proof (induction names arbitrary: acc)
  case Nil
  show ?case by simp
next
  case (Cons f names)
  show ?case
  proof (cases "os_path_isfile fs (os_path_join UPLOAD_DIR f)")
    case True
    then obtain sz where "os_path_getsize fs (os_path_join UPLOAD_DIR f) = Inr sz"
      using isfile_getsize by blast
    with True Cons show ?thesis by (simp add: Let_def)
  next
    case False
    with Cons show ?thesis by (simp add: Let_def)
  qed
qed

lemma py_round2_error: "\<bar>py_round2 x - x\<bar> \<le> 1 / 200"
proof -
  define y where "y = x * 100"
  define f where "f = \<lfloor>y\<rfloor>"
  have b: "of_int f \<le> y" "y < of_int f + 1"
    unfolding f_def by linarith+
  have x: "x = y / 100" by (simp add: y_def)
  have "py_round2 x =
          of_int (if y - of_int f < 1 / 2 then f
                  else if y - of_int f > 1 / 2 then f + 1
                  else if even f then f else f + 1) / 100"
    by (simp only: py_round2_def Let_def y_def f_def)
  then show ?thesis
    unfolding x using b by (auto simp: abs_if field_simps)
qed

lemma update_member: "(k, v) \<in> set (AList.update k v al)"
  by (induction al) auto

lemma child_after_put: "c \<in> set (children (put_node fs (d @ [c]) n) d)"
proof -
  have "(d @ [c], n) \<in> set (nodes (put_node fs (d @ [c]) n))"
    by (simp add: put_node_def update_member)
  then have "(\<lambda>(q, n). last q) (d @ [c], n)
               \<in> set (children (put_node fs (d @ [c]) n) d)"
    unfolding children_def set_map set_filter by (intro imageI CollectI) simp
  then show ?thesis by simp
qed

lemma read_file_isfile:
  assumes "read_file fs s = Some b"
  shows "os_path_isfile fs s" and "os_path_getsize fs s = Inr (length b)"
  using assms
  by (auto simp: read_file_def os_path_isfile_def os_path_getsize_def
           split: sum.splits option.splits node.splits)

lemma open_write_plain_name:
  assumes "CHR ''/'' \<notin> set n"
    and "open_write fs fault (''./uploaded_audio/'' @ n) data = (Inr u, fs')"
  shows "is_dir fs (cwd fs)" and "is_dir fs (storage_dir fs)"
    and "lookup fs (storage_dir fs @ [n]) \<noteq> Some Directory"
    and "fs' = put_node fs (storage_dir fs @ [n]) (RegularFile data)"
proof -
  let ?s = "''./uploaded_audio/'' @ n"
  have sp: "split_path ?s = [''.'', ''uploaded_audio'', n]"
    using assms(1) by (rule split_path_upload)
  have st: "path_start fs ?s = cwd fs"
    by (simp add: path_start_def)
  from open_write_InrD [OF assms(2)] obtain P where P:
    "walk fs ?s (path_start fs ?s) (butlast (split_path ?s)) = Inr P"
    "is_dir fs P"
    "lookup fs (P @ [last (split_path ?s)]) \<noteq> Some Directory"
    "fs' = put_node fs (P @ [last (split_path ?s)]) (RegularFile data)"
    by blast
  from P(1) have w: "walk fs ?s (cwd fs) [''.'', ''uploaded_audio''] = Inr P"
    unfolding sp st by simp
  then show c: "is_dir fs (cwd fs)"
    unfolding walk_upload_dir by (simp split: if_splits)
  from w have "P = storage_dir fs"
    unfolding walk_upload_dir by (simp split: if_splits)
  with P(2,3,4) show "is_dir fs (storage_dir fs)"
    and "lookup fs (storage_dir fs @ [n]) \<noteq> Some Directory"
    and "fs' = put_node fs (storage_dir fs @ [n]) (RegularFile data)"
    unfolding sp by simp_all
qed

lemma list_files_after_upload:
  assumes "CHR ''/'' \<notin> set n"
    and "open_write fs fault (''./uploaded_audio/'' @ n) data = (Inr u, fs')"
  shows "\<exists>l. list_files fs' = Inr l
           \<and> \<lparr>FileEntry.filename = n,
               size_mb = py_round2 (of_nat (length data) / (1024 * 1024)),
               path = ''./uploaded_audio/'' @ n\<rparr> \<in> set (files l)"
proof -
  let ?s = "''./uploaded_audio/'' @ n"
  let ?D = "storage_dir fs"
  note pl = open_write_plain_name [OF assms]
  have dir: "is_dir fs' q = is_dir fs q" for q
    unfolding pl(4) using pl(3) by (rule is_dir_put_file) simp
  have D': "storage_dir fs' = ?D" "cwd fs' = cwd fs"
    by (simp_all add: pl(4) storage_dir_put_node cwd_put_node)
  have ls: "os_listdir fs' UPLOAD_DIR = Inr (children fs' ?D)"
    using pl(1,2) dir is_dir_exists [of fs' "cwd fs"] is_dir_exists [of fs' ?D]
    by (simp add: listdir_upload_dir D')
  have mem: "n \<in> set (children fs' ?D)"
    unfolding pl(4) by (rule child_after_put)
  have j: "os_path_join UPLOAD_DIR n = ?s"
    using join_upload [OF no_sep_take1 [OF assms(1)]] by simp
  note rd = read_file_isfile [OF read_after_write [OF assms(2)]]
  have "list_files fs' = Inr \<lparr>FilesResponse.total_files =
            length (map (\<lambda>f. \<lparr>FileEntry.filename = f,
                            size_mb = py_round2 (of_nat (case os_path_getsize fs' (os_path_join UPLOAD_DIR f) of
                                         Inr sz \<Rightarrow> sz | Inl e \<Rightarrow> 0) / (1024 * 1024)),
                            path = os_path_join UPLOAD_DIR f\<rparr>)
                    (filter (\<lambda>f. os_path_isfile fs' (os_path_join UPLOAD_DIR f)) (children fs' ?D))),
         files = map (\<lambda>f. \<lparr>FileEntry.filename = f,
                            size_mb = py_round2 (of_nat (case os_path_getsize fs' (os_path_join UPLOAD_DIR f) of
                                         Inr sz \<Rightarrow> sz | Inl e \<Rightarrow> 0) / (1024 * 1024)),
                            path = os_path_join UPLOAD_DIR f\<rparr>)
                    (filter (\<lambda>f. os_path_isfile fs' (os_path_join UPLOAD_DIR f)) (children fs' ?D))\<rparr>"
    by (simp only: list_files_def ls list_loop_eq sum.case append_Nil)
  moreover have "\<lparr>FileEntry.filename = n,
               size_mb = py_round2 (of_nat (length data) / (1024 * 1024)),
               path = ?s\<rparr>
      \<in> set (map (\<lambda>f. \<lparr>FileEntry.filename = f,
                            size_mb = py_round2 (of_nat (case os_path_getsize fs' (os_path_join UPLOAD_DIR f) of
                                         Inr sz \<Rightarrow> sz | Inl e \<Rightarrow> 0) / (1024 * 1024)),
                            path = os_path_join UPLOAD_DIR f\<rparr>)
                    (filter (\<lambda>f. os_path_isfile fs' (os_path_join UPLOAD_DIR f)) (children fs' ?D)))"
    unfolding set_map set_filter
    by (rule image_eqI [where x = n]) (use mem rd j in simp_all)
  ultimately show ?thesis by simp
qed

subsection \<open>The response of a successful upload\<close>

text \<open>
  Claim C1, amended. When the validations pass and the write succeeds, the answer is
  HTTP 200 with status \<open>success\<close>, the stored path \<open>os.path.join(UPLOAD_DIR, filename)\<close>, its
  basename as the file name, the byte count over \<open>2^20\<close> rounded to the nearest hundredth,
  and the lower-cased extension without its dot; the stored path holds the uploaded
  bytes. When the file name has no slash, the file lies directly in the storage
  directory under its own name and \<open>list_files\<close> lists it with the same size and path.
\<close>

theorem upload_success_response:
  assumes "lower (snd (os_path_splitext n)) \<in>
             {''.mp3'', ''.wav'', ''.m4a'', ''.flac'', ''.ogg'', ''.aac'', ''.wma'', ''.opus''}"
    and "0 < length data" and "length data \<le> 104857600"
    and "open_write fs fault (os_path_join UPLOAD_DIR n) data = (Inr u, fs')"
  shows "\<exists>resp. upload_audio fs fault \<lparr>UploadFile.filename = n, content = data\<rparr> = (Inr resp, fs')
           \<and> http_status (fst (upload_audio fs fault \<lparr>UploadFile.filename = n, content = data\<rparr>)) = 200
           \<and> UploadResponse.status resp = ''success''
           \<and> file_path resp = os_path_join UPLOAD_DIR n
           \<and> UploadResponse.filename resp = os_path_basename (file_path resp)
           \<and> file_size_mb resp = py_round2 (of_nat (length data) / 2 ^ 20)
           \<and> \<bar>file_size_mb resp - of_nat (length data) / 2 ^ 20\<bar> \<le> 1 / 200
           \<and> audio_format resp = tl (lower (snd (os_path_splitext n)))
           \<and> read_file fs' (file_path resp) = Some data
           \<and> (CHR ''/'' \<notin> set n \<longrightarrow>
                 file_path resp = ''./uploaded_audio/'' @ n
                 \<and> UploadResponse.filename resp = n
                 \<and> lookup fs' (storage_dir fs' @ [n]) = Some (RegularFile data)
                 \<and> (\<exists>l. list_files fs' = Inr l
                        \<and> \<lparr>FileEntry.filename = n, size_mb = file_size_mb resp,
                            path = file_path resp\<rparr> \<in> set (files l)))"
proof -
  let ?resp = "success_response n data"
  have ext: "lower (snd (os_path_splitext n)) \<in> set SUPPORTED_AUDIO_FORMATS"
    using assms(1) by (simp only: supported_formats_set)
  have up: "upload_audio fs fault \<lparr>UploadFile.filename = n, content = data\<rparr> = (Inr ?resp, fs')"
    using ext assms(2,3,4) by (rule upload_success)
  have size: "file_size_mb ?resp = py_round2 (of_nat (length data) / 2 ^ 20)"
    by (simp add: success_response_def)
  have plain: "file_path ?resp = ''./uploaded_audio/'' @ n
                 \<and> UploadResponse.filename ?resp = n
                 \<and> lookup fs' (storage_dir fs' @ [n]) = Some (RegularFile data)
                 \<and> (\<exists>l. list_files fs' = Inr l
                        \<and> \<lparr>FileEntry.filename = n, size_mb = file_size_mb ?resp,
                            path = file_path ?resp\<rparr> \<in> set (files l))"
    if n: "CHR ''/'' \<notin> set n"
  proof -
    have j: "os_path_join UPLOAD_DIR n = ''./uploaded_audio/'' @ n"
      by (rule join_upload [OF no_sep_take1 [OF n]])
    have w: "open_write fs fault (''./uploaded_audio/'' @ n) data = (Inr u, fs')"
      using assms(4) unfolding j .
    have fp: "file_path ?resp = ''./uploaded_audio/'' @ n"
      by (simp only: success_response_def j UploadResponse.simps)
    have fn: "UploadResponse.filename ?resp = n"
      by (simp only: success_response_def j UploadResponse.simps basename_upload [OF n])
    have st: "lookup fs' (storage_dir fs' @ [n]) = Some (RegularFile data)"
      by (simp add: open_write_plain_name(4) [OF n w] storage_dir_put_node lookup_put_node)
    have sz: "file_size_mb ?resp = py_round2 (of_nat (length data) / (1024 * 1024))"
      by (simp add: success_response_def)
    from list_files_after_upload [OF n w] fp fn st sz show ?thesis
      by simp
  qed
  have "http_status (fst (upload_audio fs fault \<lparr>UploadFile.filename = n, content = data\<rparr>)) = 200"
    by (simp add: up http_status_def)
  moreover have "UploadResponse.status ?resp = ''success''"
    by (simp add: success_response_def)
  moreover have "file_path ?resp = os_path_join UPLOAD_DIR n"
    by (simp add: success_response_def)
  moreover have "UploadResponse.filename ?resp = os_path_basename (file_path ?resp)"
    by (simp add: success_response_def)
  moreover have "\<bar>file_size_mb ?resp - of_nat (length data) / 2 ^ 20\<bar> \<le> 1 / 200"
    unfolding size by (rule py_round2_error)
  moreover have "audio_format ?resp = tl (lower (snd (os_path_splitext n)))"
    using lstrip_dot_supported [OF ext] by (simp add: success_response_def)
  moreover have "read_file fs' (file_path ?resp) = Some data"
    using read_after_write [OF assms(4)] by (simp add: success_response_def)
  ultimately show ?thesis
    using up size plain by blast
qed

theorem upload_success_response_witness:
  "lower (snd (os_path_splitext ''Song.MP3'')) \<in>
      {''.mp3'', ''.wav'', ''.m4a'', ''.flac'', ''.ogg'', ''.aac'', ''.wma'', ''.opus''}
   \<and> upload_audio
        \<lparr>nodes = [([''srv''], Directory), ([''srv'', ''uploaded_audio''], Directory)], cwd = [''srv'']\<rparr>
        None \<lparr>UploadFile.filename = ''Song.MP3'', content = [1, 2, 3, 4, 5, 6, 7, 8, 9, 10]\<rparr>
      = (Inr \<lparr>UploadResponse.status = ''success'', filename = ''Song.MP3'', file_size_mb = 0,
              file_path = ''./uploaded_audio/Song.MP3'', audio_format = ''mp3'',
              message = ''Successfully uploaded audio file: Song.MP3''\<rparr>,
         \<lparr>nodes = [([''srv''], Directory), ([''srv'', ''uploaded_audio''], Directory),
                   ([''srv'', ''uploaded_audio'', ''Song.MP3''],
                    RegularFile [1, 2, 3, 4, 5, 6, 7, 8, 9, 10])],
          cwd = [''srv'']\<rparr>)
   \<and> list_files
        \<lparr>nodes = [([''srv''], Directory), ([''srv'', ''uploaded_audio''], Directory),
                  ([''srv'', ''uploaded_audio'', ''Song.MP3''],
                   RegularFile [1, 2, 3, 4, 5, 6, 7, 8, 9, 10])],
         cwd = [''srv'']\<rparr>
      = Inr \<lparr>FilesResponse.total_files = 1,
             files = [\<lparr>FileEntry.filename = ''Song.MP3'', size_mb = 0,
                       path = ''./uploaded_audio/Song.MP3''\<rparr>]\<rparr>"
proof -
  let ?fs = "\<lparr>nodes = [([''srv''], Directory), ([''srv'', ''uploaded_audio''], Directory)], cwd = [''srv'']\<rparr>"
  let ?data = "[1, 2, 3, 4, 5, 6, 7, 8, 9, 10] :: bytes"
  let ?fs' = "\<lparr>nodes = [([''srv''], Directory), ([''srv'', ''uploaded_audio''], Directory),
                  ([''srv'', ''uploaded_audio'', ''Song.MP3''], RegularFile ?data)],
         cwd = [''srv'']\<rparr>"
  have a: "lower (snd (os_path_splitext ''Song.MP3'')) \<in>
      {''.mp3'', ''.wav'', ''.m4a'', ''.flac'', ''.ogg'', ''.aac'', ''.wma'', ''.opus''}"
    by code_simp
  have b: "0 < length ?data" "length ?data \<le> 104857600"
    by simp_all
  have c: "open_write ?fs None (os_path_join UPLOAD_DIR ''Song.MP3'') ?data = (Inr (), ?fs')"
    by code_simp
  have r: "success_response ''Song.MP3'' ?data =
             \<lparr>UploadResponse.status = ''success'', filename = ''Song.MP3'', file_size_mb = 0,
              file_path = ''./uploaded_audio/Song.MP3'', audio_format = ''mp3'',
              message = ''Successfully uploaded audio file: Song.MP3''\<rparr>"
    by code_simp
  have l: "list_files ?fs' = Inr \<lparr>FilesResponse.total_files = 1,
             files = [\<lparr>FileEntry.filename = ''Song.MP3'', size_mb = 0,
                       path = ''./uploaded_audio/Song.MP3''\<rparr>]\<rparr>"
    by code_simp
  from upload_success_response [OF a b c] obtain resp where
    "upload_audio ?fs None \<lparr>UploadFile.filename = ''Song.MP3'', content = ?data\<rparr> = (Inr resp, ?fs')"
    by blast
  moreover have "upload_audio ?fs None \<lparr>UploadFile.filename = ''Song.MP3'', content = ?data\<rparr>
                   = (Inr (success_response ''Song.MP3'' ?data), ?fs')"
    using a [folded supported_formats_set] b c by (rule upload_success)
  ultimately show ?thesis
    using a l r by simp
qed

text \<open>
  A file name with a directory part is joined to \<open>UPLOAD_DIR\<close> as it is: \<open>../song.mp3\<close> is
  accepted and stored in the working directory, outside the storage directory, and
  \<open>list_files\<close> does not list it.
\<close>

theorem upload_outside_storage_dir_counterexample:
  "lower (snd (os_path_splitext ''../song.mp3'')) \<in>
      {''.mp3'', ''.wav'', ''.m4a'', ''.flac'', ''.ogg'', ''.aac'', ''.wma'', ''.opus''}
   \<and> upload_audio
        \<lparr>nodes = [([''srv''], Directory), ([''srv'', ''uploaded_audio''], Directory)], cwd = [''srv'']\<rparr>
        None \<lparr>UploadFile.filename = ''../song.mp3'', content = [1, 2, 3]\<rparr>
      = (Inr \<lparr>UploadResponse.status = ''success'', filename = ''song.mp3'', file_size_mb = 0,
              file_path = ''./uploaded_audio/../song.mp3'', audio_format = ''mp3'',
              message = ''Successfully uploaded audio file: song.mp3''\<rparr>,
         \<lparr>nodes = [([''srv''], Directory), ([''srv'', ''uploaded_audio''], Directory),
                   ([''srv'', ''song.mp3''], RegularFile [1, 2, 3])],
          cwd = [''srv'']\<rparr>)
   \<and> list_files
        \<lparr>nodes = [([''srv''], Directory), ([''srv'', ''uploaded_audio''], Directory),
                  ([''srv'', ''song.mp3''], RegularFile [1, 2, 3])],
         cwd = [''srv'']\<rparr>
      = Inr \<lparr>FilesResponse.total_files = 0, files = []\<rparr>"
proof -
  let ?fs = "\<lparr>nodes = [([''srv''], Directory), ([''srv'', ''uploaded_audio''], Directory)], cwd = [''srv'']\<rparr>"
  let ?data = "[1, 2, 3] :: bytes"
  let ?fs' = "\<lparr>nodes = [([''srv''], Directory), ([''srv'', ''uploaded_audio''], Directory),
                  ([''srv'', ''song.mp3''], RegularFile ?data)],
         cwd = [''srv'']\<rparr>"
  have a: "lower (snd (os_path_splitext ''../song.mp3'')) \<in>
      {''.mp3'', ''.wav'', ''.m4a'', ''.flac'', ''.ogg'', ''.aac'', ''.wma'', ''.opus''}"
    by code_simp
  have b: "0 < length ?data" "length ?data \<le> 104857600"
    by simp_all
  have c: "open_write ?fs None (os_path_join UPLOAD_DIR ''../song.mp3'') ?data = (Inr (), ?fs')"
    by code_simp
  have r: "success_response ''../song.mp3'' ?data =
             \<lparr>UploadResponse.status = ''success'', filename = ''song.mp3'', file_size_mb = 0,
              file_path = ''./uploaded_audio/../song.mp3'', audio_format = ''mp3'',
              message = ''Successfully uploaded audio file: song.mp3''\<rparr>"
    by code_simp
  have l: "list_files ?fs' = Inr \<lparr>FilesResponse.total_files = 0, files = []\<rparr>"
    by code_simp
  have "upload_audio ?fs None \<lparr>UploadFile.filename = ''../song.mp3'', content = ?data\<rparr>
                   = (Inr (success_response ''../song.mp3'' ?data), ?fs')"
    using a [folded supported_formats_set] b c by (rule upload_success)
  then show ?thesis
    using a l r by simp
qed

subsection \<open>The health check\<close>

lemma health_check_present:
  assumes "os_path_exists fs UPLOAD_DIR"
  shows "health_check fs =
     (case os_listdir fs UPLOAD_DIR of
        Inl e \<Rightarrow> (Inl (HTTPException 503 ''Service unhealthy''), fs)
      | Inr names \<Rightarrow>
          (Inr \<lparr>StatusResponse.status = ''healthy'',
                StatusResponse.message = ''Audio Ingestion API is running'',
                StatusResponse.total_files =
                  Some (length (filter (\<lambda>f. os_path_isfile fs (os_path_join UPLOAD_DIR f)) names))\<rparr>,
           fs))"
  using assms by (simp add: health_check_def)

lemma health_check_absent:
  assumes "\<not> os_path_exists fs UPLOAD_DIR"
  shows "health_check fs =
     (if is_dir fs (cwd fs) \<and> lookup fs (storage_dir fs) = None
      then (case os_listdir (put_node fs (storage_dir fs) Directory) UPLOAD_DIR of
              Inl e \<Rightarrow> (Inl (HTTPException 503 ''Service unhealthy''),
                        put_node fs (storage_dir fs) Directory)
            | Inr names \<Rightarrow>
                (Inr \<lparr>StatusResponse.status = ''healthy'',
                      StatusResponse.message = ''Audio Ingestion API is running'',
                      StatusResponse.total_files =
                        Some (length (filter (\<lambda>f. os_path_isfile (put_node fs (storage_dir fs) Directory)
                                                    (os_path_join UPLOAD_DIR f)) names))\<rparr>,
                 put_node fs (storage_dir fs) Directory))
      else (Inl (HTTPException 503 ''Service unhealthy''), fs))"
proof (cases "is_dir fs (cwd fs)")
  case True
  then have ex: "node_exists fs (cwd fs)" by (rule is_dir_exists)
  from assms True have "lookup fs (storage_dir fs) = None"
    by (simp add: exists_upload_dir node_exists_def storage_dir_not_cwd)
  with assms True ex show ?thesis
    by (simp add: health_check_def path_mkdir_upload_dir)
next
  case False
  with assms show ?thesis
    by (simp add: health_check_def path_mkdir_upload_dir)
qed

lemma exists_after_mkdir:
  assumes "is_dir fs (cwd fs)"
  shows "os_path_exists (put_node fs (storage_dir fs) Directory) UPLOAD_DIR"
  using assms
  by (simp add: exists_upload_dir storage_dir_put_node cwd_put_node is_dir_def node_exists_def
        lookup_put_node storage_dir_not_cwd)

lemma health_check_state:
  "snd (health_check fs) =
     (if \<not> os_path_exists fs UPLOAD_DIR \<and> is_dir fs (cwd fs) \<and> lookup fs (storage_dir fs) = None
      then put_node fs (storage_dir fs) Directory else fs)"
proof (cases "os_path_exists fs UPLOAD_DIR")
  case True
  then show ?thesis
    by (simp add: health_check_present split: sum.splits)
next
  case False
  then show ?thesis
    by (simp add: health_check_absent split: sum.splits)
qed






lemma split_path_upload_any:
  "split_path (''./uploaded_audio/'' @ n) = ''.'' # ''uploaded_audio'' # split_path n"
  by simp

lemma walk_not_dir:
  assumes "\<not> node_exists fs cur" and "cs \<noteq> []"
  shows "walk fs s cur cs = Inl (FileNotFoundError s)"
  using assms by (cases cs) simp_all

lemma open_write_without_storage_dir:
  assumes "\<not> os_path_exists fs UPLOAD_DIR"
  shows "\<exists>e. open_write fs fault (''./uploaded_audio/'' @ n) data = (Inl e, fs)"
proof -
  let ?s = "''./uploaded_audio/'' @ n"
  have sp: "butlast (split_path ?s) = ''.'' # ''uploaded_audio'' # butlast (split_path n)"
    unfolding split_path_upload_any using split_path_not_Nil [of n] by simp
  have st: "path_start fs ?s = cwd fs"
    by (simp add: path_start_def)
  show ?thesis
  proof (cases "is_dir fs (cwd fs)")
    case False
    then have "\<exists>e. walk fs ?s (path_start fs ?s) (butlast (split_path ?s)) = Inl e"
      unfolding sp st by simp
    then show ?thesis
      by (auto simp: open_write_def)
  next
    case True
    then have ex: "node_exists fs (cwd fs)" by (rule is_dir_exists)
    from assms True have missing: "\<not> node_exists fs (storage_dir fs)"
      by (simp add: exists_upload_dir)
    have w: "walk fs ?s (path_start fs ?s) (butlast (split_path ?s))
               = walk fs ?s (storage_dir fs) (butlast (split_path n))"
      unfolding sp st using True ex by (simp add: storage_dir_def)
    show ?thesis
    proof (cases "butlast (split_path n) = []")
      case True
      with w missing show ?thesis
        by (auto simp: open_write_def)
    next
      case False
      with w walk_not_dir [OF missing False] show ?thesis
        by (auto simp: open_write_def)
    qed
  qed
qed

subsection \<open>Uploads without a storage directory\<close>

lemma startup_creates:
  assumes "startup fs = (Inr u, fs1)"
  shows "os_path_exists fs1 UPLOAD_DIR"
proof -
  from assms have d: "is_dir fs (cwd fs)"
    by (auto simp: startup_def path_mkdir_upload_dir split: if_splits)
  then have ex: "node_exists fs (cwd fs)" by (rule is_dir_exists)
  show ?thesis
  proof (cases "lookup fs (storage_dir fs)")
    case None
    with assms d ex have "fs1 = put_node fs (storage_dir fs) Directory"
      by (simp add: startup_def path_mkdir_upload_dir)
    with d show ?thesis by (simp add: exists_after_mkdir)
  next
    case (Some x)
    with assms d ex have "fs1 = fs"
      by (auto simp: startup_def path_mkdir_upload_dir split: node.splits)
    with Some d show ?thesis
      by (simp add: exists_upload_dir node_exists_def)
  qed
qed

text \<open>
  Claim C5, amended. The storage directory is created when the module is loaded, not by
  the upload: an upload with a relative file name that passes the validations while
  \<open>UPLOAD_DIR\<close> does not exist is answered with HTTP 500 and changes nothing, so the
  directory is still missing afterwards; a successful \<open>startup\<close> leaves the directory in place.
\<close>

theorem upload_without_storage_dir:
  assumes "\<not> os_path_exists fs UPLOAD_DIR" and "take 1 n \<noteq> ''/''"
    and "lower (snd (os_path_splitext n)) \<in>
             {''.mp3'', ''.wav'', ''.m4a'', ''.flac'', ''.ogg'', ''.aac'', ''.wma'', ''.opus''}"
    and "0 < length data" and "length data \<le> 104857600"
  shows "http_status (fst (upload_audio fs fault \<lparr>UploadFile.filename = n, content = data\<rparr>)) = 500
         \<and> snd (upload_audio fs fault \<lparr>UploadFile.filename = n, content = data\<rparr>) = fs
         \<and> (\<forall>u fs1. startup fs = (Inr u, fs1) \<longrightarrow> os_path_exists fs1 UPLOAD_DIR)"
proof -
  have ext: "lower (snd (os_path_splitext n)) \<in> set SUPPORTED_AUDIO_FORMATS"
    using assms(3) by (simp only: supported_formats_set)
  from open_write_without_storage_dir [OF assms(1)] obtain e where
    "open_write fs fault (''./uploaded_audio/'' @ n) data = (Inl e, fs)"
    by blast
  then have w: "open_write fs fault (os_path_join UPLOAD_DIR n) data = (Inl e, fs)"
    by (simp only: join_upload [OF assms(2)])
  have "upload_audio fs fault \<lparr>UploadFile.filename = n, content = data\<rparr>
          = (Inl (HTTPException 500
               (''Internal server error: '' @ str_exc (Exception (''Failed to save uploaded Audio: '' @ str_exc e)))), fs)"
    using upload_validated [of "\<lparr>UploadFile.filename = n, content = data\<rparr>" fs fault]
          ext assms(4,5) parse_audio_Inl [OF w]
    by simp
  then show ?thesis
    using startup_creates by (auto simp: http_status_def)
qed

theorem upload_without_storage_dir_witness:
  "\<not> os_path_exists \<lparr>nodes = [([''home''], Directory)], cwd = [''home'']\<rparr> UPLOAD_DIR
   \<and> http_status (fst (upload_audio \<lparr>nodes = [([''home''], Directory)], cwd = [''home'']\<rparr>
         None \<lparr>UploadFile.filename = ''talk.wav'', content = [7, 7, 7, 7]\<rparr>)) = 500
   \<and> snd (upload_audio \<lparr>nodes = [([''home''], Directory)], cwd = [''home'']\<rparr>
         None \<lparr>UploadFile.filename = ''talk.wav'', content = [7, 7, 7, 7]\<rparr>)
       = \<lparr>nodes = [([''home''], Directory)], cwd = [''home'']\<rparr>
   \<and> os_path_exists
        \<lparr>nodes = [([''home''], Directory), ([''home'', ''uploaded_audio''], Directory)],
         cwd = [''home'']\<rparr> UPLOAD_DIR"
proof -
  let ?fs = "\<lparr>nodes = [([''home''], Directory)], cwd = [''home'']\<rparr>"
  let ?fs1 = "\<lparr>nodes = [([''home''], Directory), ([''home'', ''uploaded_audio''], Directory)],
         cwd = [''home'']\<rparr>"
  have a: "\<not> os_path_exists ?fs UPLOAD_DIR"
    by code_simp
  have b: "take 1 ''talk.wav'' \<noteq> ''/''"
    by simp
  have c: "lower (snd (os_path_splitext ''talk.wav'')) \<in>
             {''.mp3'', ''.wav'', ''.m4a'', ''.flac'', ''.ogg'', ''.aac'', ''.wma'', ''.opus''}"
    by code_simp
  have d: "0 < length ([7, 7, 7, 7] :: bytes)" "length ([7, 7, 7, 7] :: bytes) \<le> 104857600"
    by simp_all
  have s: "startup ?fs = (Inr (), ?fs1)"
    by code_simp
  from upload_without_storage_dir [OF a b c d, of None] a s show ?thesis
    by blast
qed

text \<open>
  Without the storage directory a valid upload fails: \<open>open\<close> raises \<open>FileNotFoundError\<close>.
\<close>

theorem upload_missing_storage_dir_counterexample:
  "\<not> os_path_exists \<lparr>nodes = [([''srv''], Directory)], cwd = [''srv'']\<rparr> UPLOAD_DIR
   \<and> lower (snd (os_path_splitext ''song.mp3'')) \<in>
        {''.mp3'', ''.wav'', ''.m4a'', ''.flac'', ''.ogg'', ''.aac'', ''.wma'', ''.opus''}
   \<and> upload_audio \<lparr>nodes = [([''srv''], Directory)], cwd = [''srv'']\<rparr> None
         \<lparr>UploadFile.filename = ''song.mp3'', content = [1, 2, 3]\<rparr>
       = (Inl (HTTPException 500
            (''Internal server error: Failed to save uploaded Audio: ''
               @ str_exc (FileNotFoundError ''./uploaded_audio/song.mp3''))),
          \<lparr>nodes = [([''srv''], Directory)], cwd = [''srv'']\<rparr>)"
proof -
  let ?fs = "\<lparr>nodes = [([''srv''], Directory)], cwd = [''srv'']\<rparr>"
  let ?req = "\<lparr>UploadFile.filename = ''song.mp3'', content = [1, 2, 3]\<rparr>"
  have a: "\<not> os_path_exists ?fs UPLOAD_DIR"
    by code_simp
  have c: "lower (snd (os_path_splitext ''song.mp3'')) \<in>
             {''.mp3'', ''.wav'', ''.m4a'', ''.flac'', ''.ogg'', ''.aac'', ''.wma'', ''.opus''}"
    by code_simp
  have w: "open_write ?fs None (os_path_join UPLOAD_DIR ''song.mp3'') [1, 2, 3]
             = (Inl (FileNotFoundError ''./uploaded_audio/song.mp3''), ?fs)"
    by code_simp
  have "upload_audio ?fs None ?req
          = (Inl (HTTPException 500
               (''Internal server error: '' @ str_exc (Exception (''Failed to save uploaded Audio: ''
                   @ str_exc (FileNotFoundError ''./uploaded_audio/song.mp3''))))), ?fs)"
    using upload_validated [of ?req ?fs None] c [folded supported_formats_set] parse_audio_Inl [OF w]
    by simp
  then show ?thesis
    using a c by simp
qed

subsection \<open>Counting the stored files\<close>

lemma wf_fs_node:
  assumes "wf_fs fs" and "(q, x) \<in> set (nodes fs)"
  shows "q \<noteq> []" and "\<forall>c\<in>set q. valid_name c" and "is_dir fs (butlast q)"
    and "lookup fs q = Some x"
proof -
  from assms have "q \<noteq> [] \<and> list_all valid_name q \<and> is_dir fs (butlast q)"
    unfolding wf_fs_def list_all_iff by blast
  then show "q \<noteq> []" and "\<forall>c\<in>set q. valid_name c" and "is_dir fs (butlast q)"
    by (simp_all add: list_all_iff)
  from assms show "lookup fs q = Some x"
    by (simp add: wf_fs_def lookup_def)
qed

lemma resolve_plain_child:
  assumes "valid_name n" and "is_dir fs (cwd fs)" and "is_dir fs (storage_dir fs)"
  shows "resolve fs (''./uploaded_audio/'' @ n) =
           (if node_exists fs (storage_dir fs @ [n]) then Inr (storage_dir fs @ [n])
            else Inl (FileNotFoundError (''./uploaded_audio/'' @ n)))"
proof -
  let ?s = "''./uploaded_audio/'' @ n"
  from assms(1) have n: "n \<noteq> []" "n \<noteq> ''.''" "n \<noteq> ''..''" "CHR ''/'' \<notin> set n" "CHR 0x00 \<notin> set n"
    by (simp_all add: valid_name_def)
  have nul: "CHR 0x00 \<notin> set ?s" using n(5) by simp
  have st: "path_start fs ?s = cwd fs" by (simp add: path_start_def)
  have sp: "split_path ?s = [''.'', ''uploaded_audio'', n]"
    using n(4) by (rule split_path_upload)
  have "walk fs ?s (cwd fs) [''.'', ''uploaded_audio'', n] = Inr (storage_dir fs @ [n])"
    using assms(2,3) n(1,2,3) is_dir_exists [OF assms(2)] is_dir_exists [OF assms(3)]
    by (simp add: storage_dir_def)
  then show ?thesis
    using nul unfolding resolve_def st sp by simp
qed

lemma isfile_child:
  assumes "wf_fs fs" and "is_dir fs (cwd fs)" and "(q, x) \<in> set (nodes fs)"
    and "q \<noteq> []" and "butlast q = storage_dir fs"
  shows "os_path_isfile fs (os_path_join UPLOAD_DIR (last q)) = is_regular x"
proof -
  note node = wf_fs_node [OF assms(1,3)]
  have v: "valid_name (last q)"
    using node(2) assms(4) by simp
  then have sep: "CHR ''/'' \<notin> set (last q)"
    by (simp add: valid_name_def)
  have j: "os_path_join UPLOAD_DIR (last q) = ''./uploaded_audio/'' @ last q"
    by (rule join_upload [OF no_sep_take1 [OF sep]])
  have q: "storage_dir fs @ [last q] = q"
    using assms(4,5) by (metis append_butlast_last_id)
  have d: "is_dir fs (storage_dir fs)"
    using node(3) assms(5) by simp
  have "resolve fs (''./uploaded_audio/'' @ last q) = Inr q"
    using resolve_plain_child [OF v assms(2) d] node(4)
    by (simp add: q node_exists_def)
  then show ?thesis
    unfolding j os_path_isfile_def using node(4)
    by (simp add: is_regular_def split: node.splits)
qed

lemma count_children:
  assumes "wf_fs fs" and "is_dir fs (cwd fs)"
  shows "length (filter (\<lambda>f. os_path_isfile fs (os_path_join UPLOAD_DIR f))
                   (children fs (storage_dir fs)))
           = regular_files_in fs (storage_dir fs)"
proof -
  have "filter (\<lambda>(q, n). (q \<noteq> [] \<and> butlast q = storage_dir fs)
                  \<and> os_path_isfile fs (os_path_join UPLOAD_DIR (last q))) (nodes fs)
          = filter (\<lambda>(q, n). q \<noteq> [] \<and> butlast q = storage_dir fs \<and> is_regular n) (nodes fs)"
    by (rule filter_cong [OF refl]) (auto simp: isfile_child [OF assms])
  then show ?thesis
    unfolding children_def regular_files_in_def filter_map length_map filter_filter
    by (simp add: comp_def case_prod_unfold conj_commute)
qed

lemma update_subset: "set (AList.update k v al) \<subseteq> insert (k, v) (set al)"
  by (induction al) auto

lemma no_children_when_missing:
  assumes "wf_fs fs" and "lookup fs (storage_dir fs) = None"
  shows "regular_files_in fs (storage_dir fs) = 0"
    and "children (put_node fs (storage_dir fs) Directory) (storage_dir fs) = []"
proof -
  have none: "\<not> (q \<noteq> [] \<and> butlast q = storage_dir fs)" if "(q, x) \<in> set (nodes fs)" for q x
    using wf_fs_node(3) [OF assms(1) that] assms(2)
    using storage_dir_not_cwd(2) [of fs] by (auto simp: is_dir_def)
  then show "regular_files_in fs (storage_dir fs) = 0"
    unfolding regular_files_in_def by (auto simp: filter_empty_conv)
  have "\<not> (q \<noteq> [] \<and> butlast q = storage_dir fs)"
    if "(q, x) \<in> set (nodes (put_node fs (storage_dir fs) Directory))" for q x
  proof -
    from that have "(q, x) = (storage_dir fs, Directory) \<or> (q, x) \<in> set (nodes fs)"
      using update_subset [of "storage_dir fs" Directory "nodes fs"]
      by (auto simp: put_node_def)
    then show ?thesis
    proof
      assume "(q, x) = (storage_dir fs, Directory)"
      then show ?thesis by (auto simp: storage_dir_def)
    next
      assume "(q, x) \<in> set (nodes fs)"
      then show ?thesis by (rule none)
    qed
  qed
  then show "children (put_node fs (storage_dir fs) Directory) (storage_dir fs) = []"
    unfolding children_def by (auto simp: filter_empty_conv)
qed

text \<open>
  Claim C7. A successful \<open>health_check\<close> reports the status \<open>healthy\<close> and, as
  \<open>total_files\<close>, the number of regular files that lie directly in the storage directory
  of the state it is called in (subdirectories and their content are not counted).
\<close>

theorem health_check_counts_files:
  assumes "wf_fs fs" and "health_check fs = (Inr resp, fs')"
  shows "StatusResponse.status resp = ''healthy''
         \<and> StatusResponse.total_files resp = Some (regular_files_in fs (storage_dir fs))"
proof (cases "os_path_exists fs UPLOAD_DIR")
  case True
  then have d: "is_dir fs (cwd fs)"
    by (simp add: exists_upload_dir)
  from assms(2) obtain names where
    ls: "os_listdir fs UPLOAD_DIR = Inr names"
    and r: "resp = \<lparr>StatusResponse.status = ''healthy'',
                StatusResponse.message = ''Audio Ingestion API is running'',
                StatusResponse.total_files =
                  Some (length (filter (\<lambda>f. os_path_isfile fs (os_path_join UPLOAD_DIR f)) names))\<rparr>"
    unfolding health_check_present [OF True] by (auto split: sum.splits)
  from ls have "names = children fs (storage_dir fs)"
    by (simp add: listdir_upload_dir split: if_splits)
  then show ?thesis
    by (simp add: r count_children [OF assms(1) d])
next
  case False
  let ?fs1 = "put_node fs (storage_dir fs) Directory"
  from assms(2) have c: "is_dir fs (cwd fs)" "lookup fs (storage_dir fs) = None"
    unfolding health_check_absent [OF False] by (auto split: if_splits)
  with assms(2) obtain names where
    ls: "os_listdir ?fs1 UPLOAD_DIR = Inr names"
    and r: "resp = \<lparr>StatusResponse.status = ''healthy'',
                StatusResponse.message = ''Audio Ingestion API is running'',
                StatusResponse.total_files =
                  Some (length (filter (\<lambda>f. os_path_isfile ?fs1 (os_path_join UPLOAD_DIR f)) names))\<rparr>"
    unfolding health_check_absent [OF False] by (auto split: sum.splits)
  from ls have "names = children ?fs1 (storage_dir fs)"
    by (simp add: listdir_upload_dir storage_dir_put_node split: if_splits)
  then have "names = []"
    by (simp add: no_children_when_missing(2) [OF assms(1) c(2)])
  then show ?thesis
    by (simp add: r no_children_when_missing(1) [OF assms(1) c(2)])
qed

theorem health_check_counts_files_witness:
  "wf_fs \<lparr>nodes = [([''srv''], Directory), ([''srv'', ''uploaded_audio''], Directory),
                   ([''srv'', ''uploaded_audio'', ''a.mp3''], RegularFile [1, 2]),
                   ([''srv'', ''uploaded_audio'', ''old''], Directory),
                   ([''srv'', ''uploaded_audio'', ''b.wav''], RegularFile [3]),
                   ([''srv'', ''uploaded_audio'', ''old'', ''c.ogg''], RegularFile [4]),
                   ([''srv'', ''notes.txt''], RegularFile [5])],
          cwd = [''srv'']\<rparr>
   \<and> fst (health_check
        \<lparr>nodes = [([''srv''], Directory), ([''srv'', ''uploaded_audio''], Directory),
                   ([''srv'', ''uploaded_audio'', ''a.mp3''], RegularFile [1, 2]),
                   ([''srv'', ''uploaded_audio'', ''old''], Directory),
                   ([''srv'', ''uploaded_audio'', ''b.wav''], RegularFile [3]),
                   ([''srv'', ''uploaded_audio'', ''old'', ''c.ogg''], RegularFile [4]),
                   ([''srv'', ''notes.txt''], RegularFile [5])],
          cwd = [''srv'']\<rparr>)
     = Inr \<lparr>StatusResponse.status = ''healthy'',
            message = ''Audio Ingestion API is running'',
            total_files = Some 2\<rparr>
   \<and> regular_files_in
        \<lparr>nodes = [([''srv''], Directory), ([''srv'', ''uploaded_audio''], Directory),
                   ([''srv'', ''uploaded_audio'', ''a.mp3''], RegularFile [1, 2]),
                   ([''srv'', ''uploaded_audio'', ''old''], Directory),
                   ([''srv'', ''uploaded_audio'', ''b.wav''], RegularFile [3]),
                   ([''srv'', ''uploaded_audio'', ''old'', ''c.ogg''], RegularFile [4]),
                   ([''srv'', ''notes.txt''], RegularFile [5])],
          cwd = [''srv'']\<rparr>
        [''srv'', ''uploaded_audio''] = 2"
proof -
  let ?fs = "\<lparr>nodes = [([''srv''], Directory), ([''srv'', ''uploaded_audio''], Directory),
                   ([''srv'', ''uploaded_audio'', ''a.mp3''], RegularFile [1, 2]),
                   ([''srv'', ''uploaded_audio'', ''old''], Directory),
                   ([''srv'', ''uploaded_audio'', ''b.wav''], RegularFile [3]),
                   ([''srv'', ''uploaded_audio'', ''old'', ''c.ogg''], RegularFile [4]),
                   ([''srv'', ''notes.txt''], RegularFile [5])],
          cwd = [''srv'']\<rparr>"
  let ?resp = "\<lparr>StatusResponse.status = ''healthy'',
            message = ''Audio Ingestion API is running'',
            total_files = Some 2\<rparr>"
  have a: "wf_fs ?fs"
    by code_simp
  have b: "health_check ?fs = (Inr ?resp, ?fs)"
    by code_simp
  have c: "storage_dir ?fs = [''srv'', ''uploaded_audio'']"
    by (simp add: storage_dir_def)
  from health_check_counts_files [OF a b] a b c show ?thesis
    by simp
qed

subsection \<open>The handlers keep the state well-formed\<close>

text \<open>
  Every state the service reaches from a well-formed one is well-formed: the loading of
  the module, an upload (whatever its outcome) and the health check create nodes only
  under a valid name in an existing directory, and never replace a directory by a file.
\<close>

lemma split_path_component:
  "c \<in> set (split_path s) \<Longrightarrow> CHR ''/'' \<notin> set c \<and> set c \<subseteq> set s"
proof (induction s arbitrary: c)
  case Nil
  then show ?case by simp
next
  case (Cons x xs)
  show ?case
  proof (cases "x = CHR ''/''")
    case True
    with Cons show ?thesis by auto
  next
    case False
    obtain y ys where sp: "split_path xs = y # ys"
      using split_path_not_Nil [of xs] by (cases "split_path xs") auto
    with False Cons.prems have "c = x # y \<or> c \<in> set ys"
      by simp
    then show ?thesis
    proof
      assume "c = x # y"
      moreover have "CHR ''/'' \<notin> set y \<and> set y \<subseteq> set xs"
        by (rule Cons.IH) (simp add: sp)
      ultimately show ?thesis using False by auto
    next
      assume "c \<in> set ys"
      then have "CHR ''/'' \<notin> set c \<and> set c \<subseteq> set xs"
        by (intro Cons.IH) (simp add: sp)
      then show ?thesis by auto
    qed
  qed
qed

lemma is_dir_valid:
  assumes "wf_fs fs" and "is_dir fs p"
  shows "\<forall>c\<in>set p. valid_name c"
proof (cases "p = []")
  case True
  then show ?thesis by simp
next
  case False
  with assms(2) have "map_of (nodes fs) p = Some Directory"
    by (simp add: is_dir_def lookup_def)
  then have "(p, Directory) \<in> set (nodes fs)"
    by (rule map_of_SomeD)
  then show ?thesis
    by (rule wf_fs_node(2) [OF assms(1)])
qed

lemma is_dir_put_node_mono:
  assumes "is_dir fs q" and "lookup fs t \<noteq> Some Directory \<or> n = Directory"
  shows "is_dir (put_node fs t n) q"
  using assms by (auto simp: is_dir_def lookup_put_node)

lemma wf_fs_put_node:
  assumes wf: "wf_fs fs" and dir: "is_dir fs p" and name: "valid_name c"
    and keep: "lookup fs (p @ [c]) \<noteq> Some Directory \<or> n = Directory"
  shows "wf_fs (put_node fs (p @ [c]) n)"
proof -
  let ?fs' = "put_node fs (p @ [c]) n"
  have d: "distinct (map fst (nodes ?fs'))"
    using wf by (simp add: wf_fs_def put_node_def distinct_update)
  have "q \<noteq> [] \<and> list_all valid_name q \<and> is_dir ?fs' (butlast q)"
    if "(q, x) \<in> set (nodes ?fs')" for q x
  proof -
    from that have "(q, x) = (p @ [c], n) \<or> (q, x) \<in> set (nodes fs)"
      using update_subset [of "p @ [c]" n "nodes fs"] by (auto simp: put_node_def)
    then show ?thesis
    proof
      assume "(q, x) = (p @ [c], n)"
      then show ?thesis
        using is_dir_valid [OF wf dir] name is_dir_put_node_mono [OF dir keep]
        by (simp add: list_all_iff)
    next
      assume old: "(q, x) \<in> set (nodes fs)"
      show ?thesis
        using wf_fs_node(1,2) [OF wf old] is_dir_put_node_mono [OF wf_fs_node(3) [OF wf old] keep]
        by (simp add: list_all_iff)
    qed
  qed
  with d show ?thesis
    unfolding wf_fs_def list_all_iff by blast
qed

lemma wf_fs_open_write:
  assumes "wf_fs fs"
  shows "wf_fs (snd (open_write fs fault s data))"
proof (cases "\<exists>b. snd (open_write fs fault s data) = fs")
  case True
  with assms show ?thesis by auto
next
  case False
  let ?c = "last (split_path s)"
  from False obtain P b where P:
    "CHR 0x00 \<notin> set s" "is_dir fs P" "?c \<noteq> []" "?c \<noteq> ''.''" "?c \<noteq> ''..''"
    "lookup fs (P @ [?c]) \<noteq> Some Directory"
    "snd (open_write fs fault s data) = put_node fs (P @ [?c]) (RegularFile b)"
    by (auto simp: open_write_def Let_def
             split: if_splits sum.splits option.splits node.splits io_fault.splits)
  have "?c \<in> set (split_path s)"
    using split_path_not_Nil [of s] by simp
  from split_path_component [OF this] P(1,3,4,5) have "valid_name ?c"
    by (auto simp: valid_name_def)
  with assms P(2) have "wf_fs (put_node fs (P @ [?c]) (RegularFile b))"
    using P(6) by (intro wf_fs_put_node) simp_all
  then show ?thesis by (simp only: P(7))
qed

lemma wf_fs_upload_audio:
  assumes "wf_fs fs"
  shows "wf_fs (snd (upload_audio fs fault req))"
proof -
  have "snd (upload_audio fs fault req) = fs
        \<or> snd (upload_audio fs fault req)
            = snd (open_write fs fault (os_path_join UPLOAD_DIR (UploadFile.filename req)) (content req))"
    by (auto simp: upload_audio_def parse_audio_def Let_def split: prod.splits sum.splits)
  then show ?thesis
    using assms wf_fs_open_write [OF assms] by auto
qed

lemma wf_fs_mkdir_upload_dir:
  assumes "wf_fs fs" and "is_dir fs (cwd fs)"
  shows "wf_fs (put_node fs (storage_dir fs) Directory)"
  unfolding storage_dir_def using assms
  by (intro wf_fs_put_node) (simp_all add: valid_name_def)

lemma wf_fs_health_check:
  assumes "wf_fs fs"
  shows "wf_fs (snd (health_check fs))"
  using assms wf_fs_mkdir_upload_dir [OF assms]
  by (simp add: health_check_state)

lemma wf_fs_startup:
  assumes "wf_fs fs"
  shows "wf_fs (snd (startup fs))"
  using assms wf_fs_mkdir_upload_dir [OF assms]
  by (simp add: startup_def path_mkdir_upload_dir split: option.splits node.splits)

end
